theory Spec2Isabelle
  imports Main "HOL-Library.Sublist"
begin

section \<open>Python values and exceptions\<close>

text \<open>
  The converter (\<^verbatim>\<open>convert.py\<close>) is modelled function by function. Values that come
  out of \<^verbatim>\<open>json.loads\<close> are Python objects; the model keeps the shapes JSON can
  produce. JSON numbers are kept as integers (ffprobe reports integer dimensions; floats
  are outside the model). A dictionary is an association list read with \<open>map_of\<close>.
\<close>

datatype pyval =
    PNone
  | PBool bool
  | PInt int
  | PStr string
  | PList "pyval list"
  | PDict "(string \<times> pyval) list"

text \<open>
  The exceptions the modelled code can meet. Every one but \<open>KeyboardInterrupt\<close> is a
  subclass of Python's \<^verbatim>\<open>Exception\<close>; \<open>KeyboardInterrupt\<close> derives from
  \<^verbatim>\<open>BaseException\<close> only, so \<^verbatim>\<open>except Exception\<close> does not catch it.
\<close>

datatype exn =
    ValueError
  | AttributeError
  | TypeError
  | KeyError
  | IndexError
  | CalledProcessError
  | FileExistsError
  | NotADirectoryError
  | FileNotFoundError
  | IsADirectoryError
  | ShutilError
  | KeyboardInterrupt

definition is_Exception :: "exn \<Rightarrow> bool" where
  "is_Exception e = (e \<noteq> KeyboardInterrupt)"

text \<open>Truthiness, as \<^verbatim>\<open>if x\<close>, \<^verbatim>\<open>not x\<close> and \<^verbatim>\<open>x or y\<close> read it.\<close>

fun truthy :: "pyval \<Rightarrow> bool" where
  "truthy PNone = False"
| "truthy (PBool b) = b"
| "truthy (PInt n) = (n \<noteq> 0)"
| "truthy (PStr s) = (s \<noteq> [])"
| "truthy (PList xs) = (xs \<noteq> [])"
| "truthy (PDict kvs) = (kvs \<noteq> [])"

definition py_or :: "pyval \<Rightarrow> pyval \<Rightarrow> pyval" where
  "py_or a b = (if truthy a then a else b)"

text \<open>\<^verbatim>\<open>d.get(k)\<close> on a dictionary: the value, or \<^verbatim>\<open>None\<close> for a missing key.\<close>

definition dict_get :: "(string \<times> pyval) list \<Rightarrow> string \<Rightarrow> pyval" where
  "dict_get d k = (case map_of d k of None \<Rightarrow> PNone | Some v \<Rightarrow> v)"

text \<open>\<^verbatim>\<open>str.lower\<close> on ASCII text (a \<open>char\<close> is a byte).\<close>

definition lower_char :: "char \<Rightarrow> char" where
  "lower_char c =
     (case map_of (zip ''ABCDEFGHIJKLMNOPQRSTUVWXYZ'' ''abcdefghijklmnopqrstuvwxyz'') c of
        Some l \<Rightarrow> l
      | None \<Rightarrow> c)"

definition lower :: "string \<Rightarrow> string" where
  "lower s = map lower_char s"

text \<open>\<^verbatim>\<open>v.lower()\<close>: only a string has the method.\<close>

fun py_lower :: "pyval \<Rightarrow> exn + string" where
  "py_lower (PStr s) = Inr (lower s)"
| "py_lower _ = Inl AttributeError"

text \<open>
  \<^verbatim>\<open>v <= k\<close> for an integer constant \<open>k\<close>: integers compare, a \<^verbatim>\<open>bool\<close> is the
  integer 0 or 1, every other operand raises \<^verbatim>\<open>TypeError\<close>.
\<close>

fun py_le :: "pyval \<Rightarrow> int \<Rightarrow> exn + bool" where
  "py_le (PInt n) k = Inr (n \<le> k)"
| "py_le (PBool b) k = Inr ((if b then 1 else 0) \<le> k)"
| "py_le _ k = Inl TypeError"

section \<open>Compliance classifier\<close>

text \<open>
  \<^verbatim>\<open>
  def already_satisfies_480p(info: dict) -> bool:
      if not info:
          return False
      w = info.get("width")
      h = info.get("height")
      pix = (info.get("pix_fmt") or "").lower()
      codec = (info.get("codec_name") or "").lower()
      return w is not None and h is not None and w <= 854 and h <= 480 \
             and "h264" in codec and pix in ("yuv420p","yuvj420p")
  \<close>
  \<^verbatim>\<open>"h264" in codec\<close> is the substring test, \<open>sublist\<close>. The two \<^verbatim>\<open>.lower()\<close> calls
  run before the \<^verbatim>\<open>return\<close>, so their exceptions come first; the conjunction then
  short-circuits from the left. A truthy \<open>info\<close> that is no dictionary has no
  \<^verbatim>\<open>.get\<close>.
\<close>

definition satisfies_return :: "pyval \<Rightarrow> pyval \<Rightarrow> string \<Rightarrow> string \<Rightarrow> exn + bool" where
  "satisfies_return w h pix codec =
     (if w = PNone then Inr False
      else if h = PNone then Inr False
      else (case py_le w 854 of
        Inl e \<Rightarrow> Inl e
      | Inr wb \<Rightarrow>
          if \<not> wb then Inr False
          else (case py_le h 480 of
            Inl e \<Rightarrow> Inl e
          | Inr hb \<Rightarrow>
              if \<not> hb then Inr False
              else Inr (sublist ''h264'' codec \<and> (pix = ''yuv420p'' \<or> pix = ''yuvj420p'')))))"

definition already_satisfies_480p :: "pyval \<Rightarrow> exn + bool" where
  "already_satisfies_480p info =
     (if \<not> truthy info then Inr False
      else case info of
        PDict d \<Rightarrow>
          (let w = dict_get d ''width'';
               h = dict_get d ''height''
           in case py_lower (py_or (dict_get d ''pix_fmt'') (PStr '''')) of
                Inl e \<Rightarrow> Inl e
              | Inr pix \<Rightarrow>
                 (case py_lower (py_or (dict_get d ''codec_name'') (PStr '''')) of
                    Inl e \<Rightarrow> Inl e
                  | Inr codec \<Rightarrow> satisfies_return w h pix codec))
      | _ \<Rightarrow> Inl AttributeError)"


section \<open>Paths and output naming\<close>

text \<open>
  A \<^verbatim>\<open>pathlib.Path\<close> is the list of its components. \<open>p.name\<close> is the last component
  (the empty string for a path with none), \<open>p.parent\<close> drops it, \<open>p / q\<close> appends, and
  joining the empty name appends nothing. \<open>p.stem\<close> is the name without its last suffix:
  \<^verbatim>\<open>i = name.rfind('.'); name[:i] if 0 < i < len(name) - 1 else name\<close>.
\<close>

type_synonym path = "string list"

definition name :: "path \<Rightarrow> string" where
  "name p = (if p = [] then [] else last p)"

definition parent :: "path \<Rightarrow> path" where
  "parent p = butlast p"

definition join_name :: "path \<Rightarrow> string \<Rightarrow> path" where
  "join_name p n = (if n = [] then p else p @ [n])"

fun rfind :: "char \<Rightarrow> string \<Rightarrow> nat option" where
  "rfind c [] = None"
| "rfind c (x # xs) =
     (case rfind c xs of
        Some i \<Rightarrow> Some (Suc i)
      | None \<Rightarrow> if x = c then Some 0 else None)"

definition stem :: "path \<Rightarrow> string" where
  "stem p =
     (let n = name p in
      case rfind (CHR ''.'') n of
        Some i \<Rightarrow> if 0 < i \<and> i < length n - 1 then take i n else n
      | None \<Rightarrow> n)"

text \<open>\<^verbatim>\<open>in_file.relative_to(in_root)\<close> raises \<^verbatim>\<open>ValueError\<close> unless the root is a prefix.\<close>

definition relative_to :: "path \<Rightarrow> path \<Rightarrow> exn + path" where
  "relative_to p in_root =
     (if prefix in_root p then Inr (drop (length in_root) p) else Inl ValueError)"

text \<open>
  \<^verbatim>\<open>
  def base_with_suffix(base: str, suffix: str) -> str:
      return base if base.endswith(suffix) else base + suffix
  \<close>
\<close>

definition base_with_suffix :: "string \<Rightarrow> string \<Rightarrow> string" where
  "base_with_suffix base suff = (if suffix suff base then base else base @ suff)"

section \<open>The filesystem\<close>

text \<open>
  The filesystem maps a path to what is there: a regular file, a directory, or nothing.
  The root (the empty path) is implicit.
\<close>

datatype kind = File | Dir

type_synonym filesystem = "path \<rightharpoonup> kind"

definition fs_exists :: "filesystem \<Rightarrow> path \<Rightarrow> bool" where
  "fs_exists m p = (m p \<noteq> None)"

text \<open>Well-formed: every proper ancestor of an entry is a directory.\<close>

definition wf_fs :: "filesystem \<Rightarrow> bool" where
  "wf_fs m = (\<forall>p q. m p \<noteq> None \<and> strict_prefix q p \<and> q \<noteq> [] \<longrightarrow> m q = Some Dir)"

text \<open>
  \<^verbatim>\<open>p.mkdir(parents=True, exist_ok=True)\<close>: a regular file at \<open>p\<close> raises
  \<^verbatim>\<open>FileExistsError\<close>, one at an ancestor \<^verbatim>\<open>NotADirectoryError\<close>, and nothing is
  created then; otherwise \<open>p\<close> and its missing ancestors become directories.
\<close>

definition mkdir_parents :: "path \<Rightarrow> filesystem \<Rightarrow> exn + filesystem" where
  "mkdir_parents p m =
     (if p \<noteq> [] \<and> m p = Some File then Inl FileExistsError
      else if list_ex (\<lambda>q. q \<noteq> [] \<and> m q = Some File) (prefixes p) then Inl NotADirectoryError
      else Inr (\<lambda>q. if q \<noteq> [] \<and> prefix q p then Some Dir else m q))"

text \<open>\<^verbatim>\<open>p.unlink()\<close> removes a regular file.\<close>

definition unlink :: "path \<Rightarrow> filesystem \<Rightarrow> exn + filesystem" where
  "unlink p m =
     (case m p of
        None \<Rightarrow> Inl FileNotFoundError
      | Some File \<Rightarrow> Inr (m(p := None))
      | Some Dir \<Rightarrow> Inl IsADirectoryError)"

text \<open>The recurring \<^verbatim>\<open>if temp_name.exists(): temp_name.unlink()\<close>.\<close>

definition unlink_if_exists :: "path \<Rightarrow> filesystem \<Rightarrow> exn + filesystem" where
  "unlink_if_exists p m = (if fs_exists m p then unlink p m else Inr m)"

text \<open>
  \<^verbatim>\<open>os.rename\<close>: what was at or under \<open>src\<close> is now at or under \<open>dst\<close>, and nothing is
  left at or under \<open>src\<close>.
\<close>

definition rename :: "path \<Rightarrow> path \<Rightarrow> filesystem \<Rightarrow> filesystem" where
  "rename src dst m =
     (\<lambda>p. if prefix src p then None
          else if prefix dst p then m (src @ drop (length dst) p)
          else m p)"

text \<open>
  \<^verbatim>\<open>shutil.move(src, dst)\<close>: a missing source raises; a destination that is a directory
  receives the source under its own name, unless that name is taken; nothing moves into
  itself; a directory does not replace a regular file; otherwise the source is renamed.
\<close>

definition shutil_move :: "path \<Rightarrow> path \<Rightarrow> filesystem \<Rightarrow> exn + filesystem" where
  "shutil_move src dst m =
     (case m src of
        None \<Rightarrow> Inl FileNotFoundError
      | Some k \<Rightarrow>
          if src = dst then Inr m
          else
            (let real_dst = (if m dst = Some Dir then join_name dst (name src) else dst) in
             if m dst = Some Dir \<and> m real_dst \<noteq> None then Inl ShutilError
             else if strict_prefix src real_dst
               then Inl (if k = Dir then ShutilError else NotADirectoryError)
             else if k = Dir \<and> m real_dst = Some File then Inl FileExistsError
             else Inr (rename src real_dst m)))"

text \<open>
  \<^verbatim>\<open>
  def make_output_path(in_file: Path, in_root: Path, out_root: Path) -> Path:
      rel = in_file.relative_to(in_root)
      out_dir = out_root / in_root.name / rel.parent
      out_dir.mkdir(parents=True, exist_ok=True)
      return out_dir / f"{base_with_suffix(rel.stem,'_480p')}.mkv"
  \<close>
  The function returns the path and leaves the filesystem changed.
\<close>

definition out_dir_of :: "path \<Rightarrow> path \<Rightarrow> path \<Rightarrow> path" where
  "out_dir_of rel in_root out_root = join_name out_root (name in_root) @ parent rel"

definition make_output_path ::
  "path \<Rightarrow> path \<Rightarrow> path \<Rightarrow> filesystem \<Rightarrow> exn + (path \<times> filesystem)" where
  "make_output_path in_file in_root out_root m =
     (case relative_to in_file in_root of
        Inl e \<Rightarrow> Inl e
      | Inr rel \<Rightarrow>
          (let out_dir = out_dir_of rel in_root out_root in
           case mkdir_parents out_dir m of
             Inl e \<Rightarrow> Inl e
           | Inr m' \<Rightarrow> Inr (out_dir @ [base_with_suffix (stem rel) ''_480p'' @ ''.mkv''], m')))"


section \<open>Configuration and commands\<close>

text \<open>The module constants, with the values the source gives them.\<close>

definition CRF :: int where "CRF = 18"
definition PRESET :: string where "PRESET = ''medium''"
definition TUNE_ANIMATION :: bool where "TUNE_ANIMATION = True"
definition LEVEL :: string where "LEVEL = ''3.0''"
definition OVERWRITE :: bool where "OVERWRITE = False"
definition SKIP_IF_ALREADY_480P :: bool where "SKIP_IF_ALREADY_480P = True"
definition COPY_ATTACHMENTS :: bool where "COPY_ATTACHMENTS = True"
definition MAX_MUXING_QUEUE_SIZE :: string where "MAX_MUXING_QUEUE_SIZE = ''4096''"

text \<open>
  \<^verbatim>\<open>HWACCEL\<close> and \<^verbatim>\<open>TEMP_DIR\<close> are computed once at import from the machine
  (\<^verbatim>\<open>detect_hwaccel()\<close>, the environment); they are parameters here.
\<close>

record globals =
  HWACCEL :: "string option"
  TEMP_DIR :: path

text \<open>\<^verbatim>\<open>str(n)\<close> for an integer, in decimal.\<close>

function str_nat :: "nat \<Rightarrow> string" where
  "str_nat n =
     (if n < 10 then [''0123456789'' ! n]
      else str_nat (n div 10) @ [''0123456789'' ! (n mod 10)])"
  by pat_completeness auto
termination
  by (relation "measure id") auto

declare str_nat.simps [simp del]

definition str_int :: "int \<Rightarrow> string" where
  "str_int i = (if i < 0 then CHR ''-'' # str_nat (nat (- i)) else str_nat (nat i))"

text \<open>
  An argument of a command line is a string; \<open>P p\<close> stands for \<^verbatim>\<open>str(p)\<close> of a path,
  kept symbolic so that the path a process writes to can be read off its command.
\<close>

datatype arg = S string | P path

text \<open>Truthiness of an \<^verbatim>\<open>Optional[str]\<close>: \<^verbatim>\<open>None\<close> and the empty string are false.\<close>

definition truthy_opt :: "string option \<Rightarrow> bool" where
  "truthy_opt h = (case h of None \<Rightarrow> False | Some s \<Rightarrow> s \<noteq> [])"

text \<open>
  The filter expression of the source, character for character; in the Python literal the
  two backslashes are escaped, so the string holds one before each inner comma.
\<close>

definition vf_chain :: string where
  "vf_chain =
     ''scale=trunc(iw*min(854/iw'' @ [CHR 0x5C] @ '',480/ih)/2)*2:trunc(ih*min(854/iw''
       @ [CHR 0x5C] @ '',480/ih)/2)*2,setsar=1''"

text \<open>
  \<^verbatim>\<open>
  def build_ffmpeg_command(in_file, out_file, hwaccel):
      vf_chain = "scale=trunc(iw*min(854/iw\\,480/ih)/2)*2:trunc(ih*min(854/iw\\,480/ih)/2)*2,setsar=1"
      cmd = ["ffmpeg","-hide_banner","-loglevel","error","-stats"]
      if hwaccel:
          cmd += ["-hwaccel", hwaccel]
      cmd += ["-i", str(in_file), "-map", "0", "-map_metadata", "0", "-map_chapters", "0"]
      cmd += ["-c:v", "libx264", "-profile:v", "baseline", "-level:v", LEVEL,
              "-pix_fmt", "yuv420p", "-vf", vf_chain, "-preset", PRESET, "-crf", str(CRF)]
      if TUNE_ANIMATION:
          cmd += ["-tune", "animation"]
      cmd += ["-c:a", "aac", "-b:a", "160k", "-ac", "2"]
      cmd += ["-c:s", "copy"]
      if COPY_ATTACHMENTS:
          cmd += ["-c:t", "copy"]
      cmd += ["-max_muxing_queue_size", MAX_MUXING_QUEUE_SIZE, "-threads", "0",
              "-n" if not OVERWRITE else "-y", str(out_file)]
      return cmd
  \<close>
\<close>

definition build_ffmpeg_command :: "path \<Rightarrow> path \<Rightarrow> string option \<Rightarrow> arg list" where
  "build_ffmpeg_command in_file out_file hwaccel =
     [S ''ffmpeg'', S ''-hide_banner'', S ''-loglevel'', S ''error'', S ''-stats'']
     @ (if truthy_opt hwaccel then [S ''-hwaccel'', S (the hwaccel)] else [])
     @ [S ''-i'', P in_file, S ''-map'', S ''0'', S ''-map_metadata'', S ''0'',
        S ''-map_chapters'', S ''0'']
     @ [S ''-c:v'', S ''libx264'', S ''-profile:v'', S ''baseline'', S ''-level:v'', S LEVEL,
        S ''-pix_fmt'', S ''yuv420p'', S ''-vf'', S vf_chain, S ''-preset'', S PRESET,
        S ''-crf'', S (str_int CRF)]
     @ (if TUNE_ANIMATION then [S ''-tune'', S ''animation''] else [])
     @ [S ''-c:a'', S ''aac'', S ''-b:a'', S ''160k'', S ''-ac'', S ''2'']
     @ [S ''-c:s'', S ''copy'']
     @ (if COPY_ATTACHMENTS then [S ''-c:t'', S ''copy''] else [])
     @ [S ''-max_muxing_queue_size'', S MAX_MUXING_QUEUE_SIZE, S ''-threads'', S ''0'',
        S (if \<not> OVERWRITE then ''-n'' else ''-y''), P out_file]"

text \<open>The remux command that \<^verbatim>\<open>convert_one\<close> builds in line (lines 171 to 180).\<close>

definition remux_command :: "path \<Rightarrow> path \<Rightarrow> arg list" where
  "remux_command in_file temp_name =
     [S ''ffmpeg'', S ''-hide_banner'', S ''-loglevel'', S ''error'', S ''-stats'',
      S ''-i'', P in_file,
      S ''-map'', S ''0'', S ''-map_metadata'', S ''0'', S ''-map_chapters'', S ''0'',
      S ''-c:v'', S ''copy'',
      S ''-c:a'', S ''aac'', S ''-b:a'', S ''160k'', S ''-ac'', S ''2'',
      S ''-c:s'', S ''copy'']
     @ (if COPY_ATTACHMENTS then [S ''-c:t'', S ''copy''] else [])
     @ [S ''-max_muxing_queue_size'', S MAX_MUXING_QUEUE_SIZE, S ''-threads'', S ''0'',
        S (if \<not> OVERWRITE then ''-n'' else ''-y''), P temp_name]"

definition ffprobe_command :: "path \<Rightarrow> arg list" where
  "ffprobe_command p =
     [S ''ffprobe'', S ''-v'', S ''error'', S ''-select_streams'', S ''v:0'',
      S ''-show_entries'', S ''stream=width,height,pix_fmt,codec_name'',
      S ''-of'', S ''json'', P p]"

text \<open>The path a transcoder command writes to: its last argument.\<close>

definition output_of :: "arg list \<Rightarrow> path option" where
  "output_of cmd =
     (if cmd = [] then None else case last cmd of P p \<Rightarrow> Some p | S s \<Rightarrow> None)"


section \<open>The world: filesystem, external processes, uuids\<close>

text \<open>
  How an external transcoder process ends, seen from \<^verbatim>\<open>run_cmd\<close>: it exits with a
  code, or the user interrupts while Python waits for it (\<^verbatim>\<open>KeyboardInterrupt\<close>), or
  \<^verbatim>\<open>Popen\<close> itself raises (the tool is missing). The flag says whether the process
  leaves a file at its output path. The engine touches no other path.
\<close>

datatype proc = Exits int bool | Interrupted bool | SpawnFails

text \<open>How a run of the probing tool ends, up to and including \<^verbatim>\<open>json.loads\<close>.\<close>

datatype probe_run =
    ToolMissing
  | NonZeroExit
  | BadOutput
  | Parsed pyval
  | ProbeInterrupted

text \<open>
  The world a task runs in. \<open>engine w k\<close> and \<open>prober w k\<close> say how the \<open>k\<close>-th external
  command of the run behaves (\<open>k\<close> counts the commands in \<open>spawned\<close>, the log of every
  command handed to the operating system); \<open>uuid4_hex w n\<close> is the hex of the \<open>n\<close>-th
  \<^verbatim>\<open>uuid.uuid4()\<close>.
\<close>

record world =
  fs :: filesystem
  spawned :: "arg list list"
  engine :: "nat \<Rightarrow> proc"
  prober :: "nat \<Rightarrow> probe_run"
  uuid4_hex :: "nat \<Rightarrow> string"
  uuid_calls :: nat

text \<open>
  A process creates its output file only where none is and the parent directory exists.
\<close>

definition parent_is_dir :: "filesystem \<Rightarrow> path \<Rightarrow> bool" where
  "parent_is_dir m p = (p \<noteq> [] \<and> (butlast p = [] \<or> m (butlast p) = Some Dir))"

definition proc_effect :: "bool \<Rightarrow> path option \<Rightarrow> filesystem \<Rightarrow> filesystem" where
  "proc_effect wr out m =
     (case out of
        None \<Rightarrow> m
      | Some p \<Rightarrow> if wr \<and> m p = None \<and> parent_is_dir m p then m(p \<mapsto> File) else m)"

text \<open>
  \<^verbatim>\<open>
  def run_cmd(cmd: List[str]) -> int:
      p = None
      try:
          p = subprocess.Popen(cmd)
          return p.wait()
      except KeyboardInterrupt:
          try:
              if p:
                  p.terminate()
          except Exception:
              pass
          return 130
      except Exception:
          return 1
  \<close>
\<close>

definition run_cmd :: "arg list \<Rightarrow> world \<Rightarrow> int \<times> world" where
  "run_cmd cmd w =
     (let w1 = w\<lparr>spawned := spawned w @ [cmd]\<rparr> in
      case engine w (length (spawned w)) of
        Exits rc wr \<Rightarrow> (rc, w1\<lparr>fs := proc_effect wr (output_of cmd) (fs w)\<rparr>)
      | Interrupted wr \<Rightarrow> (130, w1\<lparr>fs := proc_effect wr (output_of cmd) (fs w)\<rparr>)
      | SpawnFails \<Rightarrow> (1, w1))"

section \<open>Stream prober\<close>

text \<open>\<^verbatim>\<open>streams[0]\<close> on a truthy value.\<close>

fun py_index0 :: "pyval \<Rightarrow> exn + pyval" where
  "py_index0 (PList (x # xs)) = Inr x"
| "py_index0 (PList []) = Inl IndexError"
| "py_index0 (PStr (c # cs)) = Inr (PStr [c])"
| "py_index0 (PStr []) = Inl IndexError"
| "py_index0 (PDict kvs) = Inl KeyError"
| "py_index0 _ = Inl TypeError"

text \<open>
  \<^verbatim>\<open>
  def ffprobe_info(path: Path) -> dict:
      cmd = ["ffprobe","-v","error","-select_streams","v:0","-show_entries",
             "stream=width,height,pix_fmt,codec_name","-of","json",str(path)]
      try:
          out = subprocess.check_output(cmd, stderr=subprocess.STDOUT).decode()
          data = json.loads(out)
          streams = data.get("streams") or []
          return streams[0] if streams else {}
      except Exception:
          return {}
  \<close>
  \<open>select_stream\<close> is the last two lines of the \<^verbatim>\<open>try\<close> body, \<open>probe_body\<close> the whole
  body, \<open>ffprobe_result\<close> the \<^verbatim>\<open>try\<close> with its handler.
\<close>

definition select_stream :: "pyval \<Rightarrow> exn + pyval" where
  "select_stream data =
     (case data of
        PDict d \<Rightarrow>
          (let streams = py_or (dict_get d ''streams'') (PList []) in
           if truthy streams then py_index0 streams else Inr (PDict []))
      | _ \<Rightarrow> Inl AttributeError)"

definition probe_body :: "probe_run \<Rightarrow> exn + pyval" where
  "probe_body r =
     (case r of
        ToolMissing \<Rightarrow> Inl FileNotFoundError
      | NonZeroExit \<Rightarrow> Inl CalledProcessError
      | BadOutput \<Rightarrow> Inl ValueError
      | ProbeInterrupted \<Rightarrow> Inl KeyboardInterrupt
      | Parsed data \<Rightarrow> select_stream data)"

definition ffprobe_result :: "probe_run \<Rightarrow> exn + pyval" where
  "ffprobe_result r =
     (case probe_body r of
        Inl e \<Rightarrow> if is_Exception e then Inr (PDict []) else Inl e
      | Inr v \<Rightarrow> Inr v)"

definition ffprobe_info :: "path \<Rightarrow> world \<Rightarrow> (exn + pyval) \<times> world" where
  "ffprobe_info p w =
     (ffprobe_result (prober w (length (spawned w))),
      w\<lparr>spawned := spawned w @ [ffprobe_command p]\<rparr>)"

section \<open>Execution and fallback controller\<close>

text \<open>\<^verbatim>\<open>TEMP_DIR / f"{uuid.uuid4().hex}.tmp.mkv"\<close>\<close>

definition temp_path :: "globals \<Rightarrow> string \<Rightarrow> path" where
  "temp_path g u = TEMP_DIR g @ [u @ ''.tmp.mkv'']"

definition new_temp_name :: "globals \<Rightarrow> world \<Rightarrow> path \<times> world" where
  "new_temp_name g w =
     (temp_path g (uuid4_hex w (uuid_calls w)), w\<lparr>uuid_calls := Suc (uuid_calls w)\<rparr>)"

definition error_status :: "int \<Rightarrow> string" where
  "error_status rc = ''error('' @ str_int rc @ '')''"

type_synonym outcome = "path \<times> path \<times> string"

text \<open>
  Lines 167 to 187 of \<^verbatim>\<open>convert_one\<close>: probe, and remux when the source complies.
  \<open>Inr (Some r)\<close> is a \<^verbatim>\<open>return r\<close> from inside, \<open>Inr None\<close> falls through to the full
  encode.
  \<^verbatim>\<open>
      if SKIP_IF_ALREADY_480P:
          info = ffprobe_info(in_file)
          if already_satisfies_480p(info):
              temp_name = TEMP_DIR / f"{uuid.uuid4().hex}.tmp.mkv"
              cmd = [...]
              rc = run_cmd(cmd)
              if rc == 0:
                  shutil.move(str(temp_name), out_file)
                  return (in_file, out_file, "remuxed-audio-converted")
              if temp_name.exists():
                  temp_name.unlink()
  \<close>
\<close>

definition remux_attempt ::
  "globals \<Rightarrow> path \<Rightarrow> path \<Rightarrow> world \<Rightarrow> (exn + outcome option) \<times> world" where
  "remux_attempt g in_file out_file w =
     (let (temp_name, w1) = new_temp_name g w;
          (rc, w2) = run_cmd (remux_command in_file temp_name) w1
      in if rc = 0 then
           (case shutil_move temp_name out_file (fs w2) of
              Inl e \<Rightarrow> (Inl e, w2)
            | Inr m \<Rightarrow> (Inr (Some (in_file, out_file, ''remuxed-audio-converted'')),
                        w2\<lparr>fs := m\<rparr>))
         else
           (case unlink_if_exists temp_name (fs w2) of
              Inl e \<Rightarrow> (Inl e, w2)
            | Inr m \<Rightarrow> (Inr None, w2\<lparr>fs := m\<rparr>)))"

definition remux_phase ::
  "globals \<Rightarrow> path \<Rightarrow> path \<Rightarrow> world \<Rightarrow> (exn + outcome option) \<times> world" where
  "remux_phase g in_file out_file w =
     (if SKIP_IF_ALREADY_480P then
        (let (r, w1) = ffprobe_info in_file w in
         case r of
           Inl e \<Rightarrow> (Inl e, w1)
         | Inr info \<Rightarrow>
             (case already_satisfies_480p info of
                Inl e \<Rightarrow> (Inl e, w1)
              | Inr ok \<Rightarrow> if ok then remux_attempt g in_file out_file w1 else (Inr None, w1)))
      else (Inr None, w))"

text \<open>
  Lines 193 to 201: the encode attempts, all into the one \<open>temp_name\<close> of line 190.
  \<^verbatim>\<open>
      tried_hw = HWACCEL
      if tried_hw:
          rc = run_cmd(build_ffmpeg_command(in_file, temp_name, tried_hw))
          if rc != 0:
              if temp_name.exists():
                  temp_name.unlink()
              rc = run_cmd(build_ffmpeg_command(in_file, temp_name, None))
      else:
          rc = run_cmd(build_ffmpeg_command(in_file, temp_name, None))
  \<close>
\<close>

definition encode_attempts ::
  "globals \<Rightarrow> path \<Rightarrow> path \<Rightarrow> world \<Rightarrow> (exn + int) \<times> world" where
  "encode_attempts g in_file temp_name w =
     (let tried_hw = HWACCEL g in
      if truthy_opt tried_hw then
        (let (rc, w1) = run_cmd (build_ffmpeg_command in_file temp_name tried_hw) w in
         if rc \<noteq> 0 then
           (case unlink_if_exists temp_name (fs w1) of
              Inl e \<Rightarrow> (Inl e, w1)
            | Inr m \<Rightarrow>
                (let (rc', w2) =
                       run_cmd (build_ffmpeg_command in_file temp_name None) (w1\<lparr>fs := m\<rparr>)
                 in (Inr rc', w2)))
         else (Inr rc, w1))
      else
        (let (rc, w1) = run_cmd (build_ffmpeg_command in_file temp_name None) w
         in (Inr rc, w1)))"

text \<open>
  Lines 190 to 208: the full encode.
  \<^verbatim>\<open>
      temp_name = TEMP_DIR / f"{uuid.uuid4().hex}.tmp.mkv"
      ...
      if rc == 0:
          shutil.move(str(temp_name), out_file)
          return (in_file, out_file, "encoded")
      if temp_name.exists():
          temp_name.unlink()
      return (in_file, out_file, f"error({rc})")
  \<close>
\<close>

definition full_encode ::
  "globals \<Rightarrow> path \<Rightarrow> path \<Rightarrow> world \<Rightarrow> (exn + outcome) \<times> world" where
  "full_encode g in_file out_file w =
     (let (temp_name, w1) = new_temp_name g w;
          (r, w2) = encode_attempts g in_file temp_name w1
      in case r of
           Inl e \<Rightarrow> (Inl e, w2)
         | Inr rc \<Rightarrow>
             if rc = 0 then
               (case shutil_move temp_name out_file (fs w2) of
                  Inl e \<Rightarrow> (Inl e, w2)
                | Inr m \<Rightarrow> (Inr (in_file, out_file, ''encoded''), w2\<lparr>fs := m\<rparr>))
             else
               (case unlink_if_exists temp_name (fs w2) of
                  Inl e \<Rightarrow> (Inl e, w2)
                | Inr m \<Rightarrow> (Inr (in_file, out_file, error_status rc), w2\<lparr>fs := m\<rparr>)))"

text \<open>
  \<^verbatim>\<open>
  def convert_one(in_root: Path, in_file: Path, out_root: Path) -> Tuple[Path, Path, str]:
      out_file = make_output_path(in_file, in_root, out_root)
      if out_file.exists() and not OVERWRITE:
          return (in_file, out_file, "exists-skip")
      ... remux phase ...
      ... full encode ...
  \<close>
  The result is the returned triple or the exception that leaves the function, with the
  world as the call leaves it.
\<close>

definition convert_one ::
  "globals \<Rightarrow> path \<Rightarrow> path \<Rightarrow> path \<Rightarrow> world \<Rightarrow> (exn + outcome) \<times> world" where
  "convert_one g in_root in_file out_root w =
     (case make_output_path in_file in_root out_root (fs w) of
        Inl e \<Rightarrow> (Inl e, w)
      | Inr (out_file, m) \<Rightarrow>
          (let w1 = w\<lparr>fs := m\<rparr> in
           if fs_exists (fs w1) out_file \<and> \<not> OVERWRITE
           then (Inr (in_file, out_file, ''exists-skip''), w1)
           else
             (let (r, w2) = remux_phase g in_file out_file w1 in
              case r of
                Inl e \<Rightarrow> (Inl e, w2)
              | Inr (Some res) \<Rightarrow> (Inr res, w2)
              | Inr None \<Rightarrow> full_encode g in_file out_file w2)))"

section \<open>Batch driver\<close>

text \<open>
  The loop of \<^verbatim>\<open>main\<close> over the tasks, one entry per iteration begun.
  \<^verbatim>\<open>
      for idx, (root, f) in enumerate(tasks, 1):
          print(f"[{idx}/{total}] {f.relative_to(root)}")
          try:
              _, out_p, status = convert_one(root, f, outdir)
              ... count by status ...
          except KeyboardInterrupt:
              print("\nInterrupted.")
              break
          except Exception as e:
              errors += 1
  \<close>
  The progress line stands outside the \<^verbatim>\<open>try\<close>: its \<^verbatim>\<open>relative_to\<close> raises
  \<^verbatim>\<open>ValueError\<close> out of the loop for a file that is not under its root. A
  \<^verbatim>\<open>KeyboardInterrupt\<close> leaving \<^verbatim>\<open>convert_one\<close> breaks the loop; any other exception
  is counted and the loop goes on.
\<close>

fun main_loop ::
  "globals \<Rightarrow> path \<Rightarrow> (path \<times> path) list \<Rightarrow> world \<Rightarrow> (exn + outcome) list \<times> world" where
  "main_loop g outdir [] w = ([], w)"
| "main_loop g outdir ((in_root, f) # tasks) w =
     (case relative_to f in_root of
        Inl e \<Rightarrow> ([Inl e], w)
      | Inr rel \<Rightarrow>
          (let (r, w1) = convert_one g in_root f outdir w in
           if r = Inl KeyboardInterrupt then ([r], w1)
           else (let (rs, w2) = main_loop g outdir tasks w1 in (r # rs, w2))))"

text \<open>The counters of the summary line: \<^verbatim>\<open>done\<close>, \<^verbatim>\<open>skipped\<close>, \<^verbatim>\<open>remuxed\<close>, \<^verbatim>\<open>errors\<close>.\<close>

record summary =
  n_done :: nat
  n_skipped :: nat
  n_remuxed :: nat
  n_errors :: nat

fun tally :: "(exn + outcome) list \<Rightarrow> summary \<Rightarrow> summary" where
  "tally [] c = c"
| "tally (Inr (i, out, status) # rs) c =
     tally rs
       (if status = ''encoded'' then c\<lparr>n_done := n_done c + 1\<rparr>
        else if status = ''remuxed-audio-converted'' then c\<lparr>n_remuxed := n_remuxed c + 1\<rparr>
        else if status = ''exists-skip'' then c\<lparr>n_skipped := n_skipped c + 1\<rparr>
        else c\<lparr>n_errors := n_errors c + 1\<rparr>)"
| "tally (Inl e # rs) c =
     tally rs (if is_Exception e then c\<lparr>n_errors := n_errors c + 1\<rparr> else c)"


section \<open>Notions of the specification\<close>

text \<open>
  A stream profile as the specification describes it: width and height are integers or
  missing, pixel format and codec name are strings or missing (\<^verbatim>\<open>None\<close> counts as
  missing). \<open>compliant\<close> is the specification's condition on such a profile, with the
  two names compared after lower-casing as the code does.
\<close>

definition field_int :: "(string \<times> pyval) list \<Rightarrow> string \<Rightarrow> int option" where
  "field_int d k = (case dict_get d k of PInt n \<Rightarrow> Some n | _ \<Rightarrow> None)"

definition field_str :: "(string \<times> pyval) list \<Rightarrow> string \<Rightarrow> string option" where
  "field_str d k = (case dict_get d k of PStr s \<Rightarrow> Some s | _ \<Rightarrow> None)"

definition int_or_missing :: "pyval \<Rightarrow> bool" where
  "int_or_missing v = (case v of PNone \<Rightarrow> True | PInt n \<Rightarrow> True | _ \<Rightarrow> False)"

definition str_or_missing :: "pyval \<Rightarrow> bool" where
  "str_or_missing v = (case v of PNone \<Rightarrow> True | PStr s \<Rightarrow> True | _ \<Rightarrow> False)"

definition stream_profile :: "(string \<times> pyval) list \<Rightarrow> bool" where
  "stream_profile d =
     (int_or_missing (dict_get d ''width'') \<and> int_or_missing (dict_get d ''height'') \<and>
      str_or_missing (dict_get d ''pix_fmt'') \<and> str_or_missing (dict_get d ''codec_name''))"

definition compliant :: "(string \<times> pyval) list \<Rightarrow> bool" where
  "compliant d =
     (case (field_int d ''width'', field_int d ''height'',
            field_str d ''pix_fmt'', field_str d ''codec_name'') of
        (Some w, Some h, Some p, Some c) \<Rightarrow>
           w \<le> 854 \<and> h \<le> 480 \<and> sublist ''h264'' (lower c) \<and>
           (lower p = ''yuv420p'' \<or> lower p = ''yuvj420p'')
      | _ \<Rightarrow> False)"

text \<open>What \<^verbatim>\<open>run_cmd\<close> returns for a process, and whether the process leaves a file.\<close>

definition exit_status :: "proc \<Rightarrow> int" where
  "exit_status pr = (case pr of Exits rc wr \<Rightarrow> rc | Interrupted wr \<Rightarrow> 130 | SpawnFails \<Rightarrow> 1)"

definition leaves_file :: "proc \<Rightarrow> bool" where
  "leaves_file pr = (case pr of Exits rc wr \<Rightarrow> wr | Interrupted wr \<Rightarrow> wr | SpawnFails \<Rightarrow> False)"

text \<open>
  A destination is pending in a filesystem when the filesystem is well-formed, nothing is
  at the destination, and its directory exists: the state between the existence check of
  \<^verbatim>\<open>convert_one\<close> and the move that commits the result.
\<close>

definition pending :: "filesystem \<Rightarrow> path \<Rightarrow> bool" where
  "pending m out = (wf_fs m \<and> m out = None \<and> parent_is_dir m out)"



text \<open>
  What the prober hands back for a parsed output: the first element of a non-empty
  \<open>streams\<close> list as it stands (the first character of a non-empty string), and the empty
  profile in every other case.
\<close>

definition first_stream :: "pyval \<Rightarrow> pyval" where
  "first_stream data =
     (case data of
        PDict d \<Rightarrow>
          (case dict_get d ''streams'' of
             PList (x # xs) \<Rightarrow> x
           | PStr (c # cs) \<Rightarrow> PStr [c]
           | _ \<Rightarrow> PDict [])
      | _ \<Rightarrow> PDict [])"

section \<open>A run with a cancellation\<close>

text \<open>
  A machine with a hardware backend, an empty output directory and two source files.
  The probe tool is missing, so both files take the full encode. The user interrupts the
  hardware encode of the first file (the second external command of the run); every
  other transcoder run succeeds.
\<close>

definition cancel_globals :: globals where
  "cancel_globals = \<lparr>HWACCEL = Some ''cuda'', TEMP_DIR = [''tmp'']\<rparr>"

definition cancel_world :: world where
  "cancel_world =
     \<lparr>fs = [[''tmp''] \<mapsto> Dir, [''out''] \<mapsto> Dir],
      spawned = [],
      engine = (\<lambda>k. if k = 1 then Interrupted True else Exits 0 True),
      prober = (\<lambda>k. ToolMissing),
      uuid4_hex = (\<lambda>n. if n = 0 then ''u0'' else ''u1''),
      uuid_calls = 0\<rparr>"

definition cancel_tasks :: "(path \<times> path) list" where
  "cancel_tasks = [([''in''], [''in'', ''a.avi'']), ([''in''], [''in'', ''b.avi''])]"

text \<open>
  The same machine without a backend, and two worlds that differ in how the only
  transcoder run ends: interrupted by the user, or exiting by itself with code 130.
\<close>

definition plain_globals :: globals where
  "plain_globals = \<lparr>HWACCEL = None, TEMP_DIR = [''tmp'']\<rparr>"

definition interrupted_world :: world where
  "interrupted_world = cancel_world\<lparr>engine := (\<lambda>k. Interrupted False)\<rparr>"

definition exit130_world :: world where
  "exit130_world = cancel_world\<lparr>engine := (\<lambda>k. Exits 130 False)\<rparr>"

text \<open>
  One filesystem comes from another by work on the single path \<open>t\<close>: every other path is
  as before, and \<open>t\<close> is as before, or was no directory and is now gone or a regular file
  in an existing directory. This is all that a transcoder run writing to \<open>t\<close> and an
  unlinking of \<open>t\<close> can do.
\<close>

definition touched :: "path \<Rightarrow> filesystem \<Rightarrow> filesystem \<Rightarrow> bool" where
  "touched t m m' =
     ((\<forall>p. p \<noteq> t \<longrightarrow> m' p = m p) \<and>
      (m' t = m t \<or>
       (m t \<noteq> Some Dir \<and> (m' t = None \<or> (m' t = Some File \<and> parent_is_dir m t)))))"

text \<open>The oracles of the world are read, never changed.\<close>

definition same_oracles :: "world \<Rightarrow> world \<Rightarrow> bool" where
  "same_oracles w w' =
     (engine w' = engine w \<and> prober w' = prober w \<and> uuid4_hex w' = uuid4_hex w)"

text \<open>The \<open>i\<close>-th temporary path a task allocates when it starts in world \<open>w\<close>.\<close>

definition tmp :: "globals \<Rightarrow> world \<Rightarrow> nat \<Rightarrow> path" where
  "tmp g w i = temp_path g (uuid4_hex w (uuid_calls w + i))"

text \<open>
  A remux is due in a world when the next external command, the probe, yields a profile
  that the classifier accepts.
\<close>

definition remux_due :: "world \<Rightarrow> bool" where
  "remux_due w =
     (case ffprobe_result (prober w (length (spawned w))) of
        Inl e \<Rightarrow> False
      | Inr info \<Rightarrow> already_satisfies_480p info = Inr True)"

text \<open>
  How an attempt phase working on the temporary path \<open>t\<close> ends, from the filesystem \<open>m\<close> it
  has reached: with an exception; with a success status after moving \<open>t\<close> to the
  destination; or with an error status, \<open>t\<close> being gone.
\<close>

definition ending ::
  "path \<Rightarrow> path \<Rightarrow> path \<Rightarrow> filesystem \<Rightarrow> exn + outcome \<Rightarrow> filesystem \<Rightarrow> bool" where
  "ending t out f m r m' =
     ((\<exists>e. r = Inl e \<and> m' = m)
      \<or> ((r = Inr (f, out, ''encoded'') \<or> r = Inr (f, out, ''remuxed-audio-converted''))
          \<and> shutil_move t out m = Inr m')
      \<or> (\<exists>rc. rc \<noteq> 0 \<and> r = Inr (f, out, error_status rc) \<and> m' = m \<and> m t = None))"

text \<open>
  The world of the run above with a probe whose output parses but lists the number 5
  where a stream object belongs.
\<close>

definition malformed_probe_world :: world where
  "malformed_probe_world =
     cancel_world\<lparr>prober := (\<lambda>k. Parsed (PDict [(''streams'', PList [PInt 5])]))\<rparr>"

text \<open>
  Two more worlds on the same machine: one where every transcoder run fails with exit
  code 1 after leaving a partial file, and one where the first file has already been
  converted.
\<close>

definition failing_world :: world where
  "failing_world = cancel_world\<lparr>engine := (\<lambda>k. Exits 1 True)\<rparr>"

definition done_world :: world where
  "done_world =
     cancel_world\<lparr>fs := [[''tmp''] \<mapsto> Dir, [''out''] \<mapsto> Dir, [''out'', ''in''] \<mapsto> Dir,
                         [''out'', ''in'', ''a_480p.mkv''] \<mapsto> File]\<rparr>"

section \<open>The batch run twice\<close>

text \<open>
  The destination of a task as a function of the task alone: the path that
  \<^verbatim>\<open>make_output_path\<close> returns when it returns.
\<close>

definition dest :: "path \<Rightarrow> path \<Rightarrow> path \<Rightarrow> path" where
  "dest f in_root out_root =
     out_dir_of (drop (length in_root) f) in_root out_root
       @ [base_with_suffix (stem (drop (length in_root) f)) ''_480p'' @ ''.mkv'']"


section \<open>The commands of the encode phase\<close>

text \<open>
  The commands the encode phase hands to the operating system for the temporary path
  \<open>t\<close>: with a backend the hardware attempt, alone or followed by the software attempt;
  without one the software attempt alone.
\<close>

definition encode_log :: "globals \<Rightarrow> path \<Rightarrow> path \<Rightarrow> arg list list \<Rightarrow> bool" where
  "encode_log g f t E =
     (if truthy_opt (HWACCEL g)
      then E = [build_ffmpeg_command f t (HWACCEL g)]
         \<or> E = [build_ffmpeg_command f t (HWACCEL g), build_ffmpeg_command f t None]
      else E = [build_ffmpeg_command f t None])"

text \<open>
  Two more worlds on the machine with a backend. In the first the probe reports a
  compliant stream, the remux and the hardware encode fail with exit code 1 and the
  software encode succeeds. The second is the first with a directory where the
  temporary file of the remux belongs.
\<close>

definition retry_world :: world where
  "retry_world =
     cancel_world
       \<lparr>engine := (\<lambda>k. if k = 3 then Exits 0 True else Exits 1 True),
        prober := (\<lambda>k. Parsed (PDict [(''streams'',
                     PList [PDict [(''width'', PInt 640), (''height'', PInt 360),
                                   (''pix_fmt'', PStr ''yuv420p''),
                                   (''codec_name'', PStr ''h264'')]])]))\<rparr>"




section \<open>The compliance classifier decides the profile condition\<close>

lemma lower_Nil: "lower [] = []"
  by (simp add: lower_def)

lemma int_or_missing_cases: "int_or_missing v \<Longrightarrow> v = PNone \<or> (\<exists>n. v = PInt n)"
  by (cases v) (simp_all add: int_or_missing_def)

lemma str_or_missing_cases: "str_or_missing v \<Longrightarrow> v = PNone \<or> (\<exists>s. v = PStr s)"
  by (cases v) (simp_all add: str_or_missing_def)

text \<open>
  Claim C4, as the code has it. On every stream profile the classifier raises nothing and
  returns true exactly when width and height are both present with width at most 854 and
  height at most 480, the lower-cased codec name contains \<open>h264\<close>, and the lower-cased
  pixel format is \<open>yuv420p\<close> or \<open>yuvj420p\<close>; a missing field gives false.
\<close>

theorem already_satisfies_480p_compliant:
  assumes "stream_profile d"
  shows "already_satisfies_480p (PDict d) = Inr (compliant d)"
proof (cases "d = []")
  case True
  then show ?thesis
    by (simp add: already_satisfies_480p_def compliant_def field_int_def dict_get_def)
next
  case False
  from assms have w: "dict_get d ''width'' = PNone \<or> (\<exists>n. dict_get d ''width'' = PInt n)"
    and h: "dict_get d ''height'' = PNone \<or> (\<exists>n. dict_get d ''height'' = PInt n)"
    and p: "dict_get d ''pix_fmt'' = PNone \<or> (\<exists>s. dict_get d ''pix_fmt'' = PStr s)"
    and c: "dict_get d ''codec_name'' = PNone \<or> (\<exists>s. dict_get d ''codec_name'' = PStr s)"
    by (simp_all add: stream_profile_def int_or_missing_cases str_or_missing_cases)
  from w h p c False show ?thesis
    by (elim disjE exE)
       (simp_all add: already_satisfies_480p_def satisfies_return_def compliant_def
          field_int_def field_str_def py_or_def lower_Nil)
qed

theorem already_satisfies_480p_compliant_witness:
  "stream_profile [(''width'', PInt 640), (''height'', PInt 360),
                   (''pix_fmt'', PStr ''yuv420p''), (''codec_name'', PStr ''h264'')]
   \<and> already_satisfies_480p
        (PDict [(''width'', PInt 640), (''height'', PInt 360),
                (''pix_fmt'', PStr ''yuv420p''), (''codec_name'', PStr ''h264'')])
      = Inr True"
proof -
  let ?d = "[(''width'', PInt 640), (''height'', PInt 360),
             (''pix_fmt'', PStr ''yuv420p''), (''codec_name'', PStr ''h264'')]"
  have sp: "stream_profile ?d"
    by (simp add: stream_profile_def int_or_missing_def str_or_missing_def dict_get_def)
  have "compliant ?d"
    by (simp add: compliant_def field_int_def field_str_def dict_get_def lower_def
        lower_char_def sublist_code)
  with sp already_satisfies_480p_compliant [OF sp] show ?thesis
    by simp
qed

text \<open>
  The claim as written compares the codec name itself with \<open>h264\<close>. A profile whose codec
  name is \<open>H264\<close> does not contain \<open>h264\<close>, and the classifier accepts it.
\<close>

theorem already_satisfies_480p_upper_case_counterexample:
  "already_satisfies_480p
     (PDict [(''width'', PInt 640), (''height'', PInt 360),
             (''pix_fmt'', PStr ''yuv420p''), (''codec_name'', PStr ''H264'')])
   = Inr True
   \<and> \<not> sublist ''h264'' ''H264''"
  by (simp add: already_satisfies_480p_def satisfies_return_def dict_get_def py_or_def
      lower_def lower_char_def sublist_code)


section \<open>The stream prober raises no exception of its own\<close>

lemma index0_of_streams:
  "truthy v \<Longrightarrow>
   (case py_index0 v of Inl e \<Rightarrow> if is_Exception e then Inr (PDict []) else Inl e | Inr x \<Rightarrow> Inr x)
   = Inr (case v of PList (x # xs) \<Rightarrow> x | PStr (c # cs) \<Rightarrow> PStr [c] | _ \<Rightarrow> PDict [])"
  by (induction v rule: py_index0.induct) (simp_all add: is_Exception_def)

lemma ffprobe_result_Parsed: "ffprobe_result (Parsed data) = Inr (first_stream data)"
proof (cases data)
  case (PDict d)
  show ?thesis
  proof (cases "truthy (dict_get d ''streams'')")
    case True
    with PDict index0_of_streams[OF True] show ?thesis
      by (simp add: ffprobe_result_def probe_body_def select_stream_def first_stream_def py_or_def)
  next
    case False
    then have "(case dict_get d ''streams'' of PList (x # xs) \<Rightarrow> x
                 | PStr (c # cs) \<Rightarrow> PStr [c] | _ \<Rightarrow> PDict []) = PDict []"
      by (cases "dict_get d ''streams''") (auto split: list.splits)
    with PDict False show ?thesis
      by (simp add: ffprobe_result_def probe_body_def select_stream_def first_stream_def py_or_def)
  qed
qed (simp_all add: ffprobe_result_def probe_body_def select_stream_def first_stream_def
       is_Exception_def)

text \<open>
  Claim C8, as the code has it. For every file and every way the probe can end,
  \<^verbatim>\<open>ffprobe_info\<close> raises no exception of its own: a missing tool, an error exit and an
  output that does not parse give the empty profile; a parsed output gives the first
  element of its \<open>streams\<close>, unchecked, and the empty profile when there is none (no video
  stream, no \<open>streams\<close>, a shape that cannot be indexed). Only an interrupt by the user
  during the probe passes through to the caller.
\<close>

theorem ffprobe_info_result:
  "fst (ffprobe_info p w) =
     (case prober w (length (spawned w)) of
        ToolMissing \<Rightarrow> Inr (PDict [])
      | NonZeroExit \<Rightarrow> Inr (PDict [])
      | BadOutput \<Rightarrow> Inr (PDict [])
      | Parsed data \<Rightarrow> Inr (first_stream data)
      | ProbeInterrupted \<Rightarrow> Inl KeyboardInterrupt)"
  by (cases "prober w (length (spawned w))")
     (simp_all add: ffprobe_info_def ffprobe_result_Parsed,
      simp_all add: ffprobe_result_def probe_body_def is_Exception_def)

text \<open>
  The claim as written promises the empty profile for every malformed output. An output
  that parses to \<^verbatim>\<open>{"streams": [5]}\<close> makes the prober return the number 5.
\<close>

theorem ffprobe_info_malformed_counterexample:
  "fst (ffprobe_info [''in'', ''a.avi''] malformed_probe_world) = Inr (PInt 5)"
  by (simp add: ffprobe_info_def malformed_probe_world_def cancel_world_def ffprobe_result_def
      probe_body_def select_stream_def dict_get_def py_or_def)

section \<open>The output path\<close>

text \<open>
  Claim C9, as the code has it. Whenever \<^verbatim>\<open>make_output_path\<close> returns, the path is
  the output root, the name of the source root, the directory of the file relative to
  its root, and the file's stem with \<open>_480p.mkv\<close> appended, except that a stem which
  already ends in \<open>_480p\<close> gets \<open>.mkv\<close> only. The right-hand side mentions neither the
  filesystem nor anything but the three paths of the task, so the same task always
  yields the same path.
\<close>

theorem make_output_path_formula:
  assumes "make_output_path f in_root out_root m = Inr (out, m')"
  shows "out = join_name out_root (name in_root) @ parent (drop (length in_root) f)
             @ [(if suffix ''_480p'' (stem (drop (length in_root) f))
                 then stem (drop (length in_root) f)
                 else stem (drop (length in_root) f) @ ''_480p'') @ ''.mkv'']"
  using assms
  by (auto simp: make_output_path_def relative_to_def out_dir_of_def base_with_suffix_def Let_def
      split: if_splits sum.splits)

theorem make_output_path_formula_witness:
  "map_sum id fst (make_output_path [''in'', ''s1'', ''ep1.mp4''] [''in''] [''out''] Map.empty)
   = Inr [''out'', ''in'', ''s1'', ''ep1_480p.mkv'']"
proof -
  obtain out m' where r:
    "make_output_path [''in'', ''s1'', ''ep1.mp4''] [''in''] [''out''] Map.empty = Inr (out, m')"
    by (simp add: make_output_path_def relative_to_def out_dir_of_def join_name_def name_def
        parent_def mkdir_parents_def)
  from make_output_path_formula [OF r] have "out = [''out'', ''in'', ''s1'', ''ep1_480p.mkv'']"
    by (simp add: join_name_def name_def parent_def stem_def suffix_to_prefix)
  with r show ?thesis by simp
qed

text \<open>
  The claim as written appends \<open>_480p.mkv\<close> to every stem. For a source file named
  \<open>ep1_480p.mkv\<close> the code returns \<open>ep1_480p.mkv\<close>, not \<open>ep1_480p_480p.mkv\<close>.
\<close>

theorem make_output_path_suffix_counterexample:
  "map_sum id fst (make_output_path [''in'', ''ep1_480p.mkv''] [''in''] [''out''] Map.empty)
   = Inr [''out'', ''in'', ''ep1_480p.mkv'']
   \<and> stem [''ep1_480p.mkv''] @ ''_480p'' @ ''.mkv'' = ''ep1_480p_480p.mkv''"
  by (simp add: make_output_path_def relative_to_def out_dir_of_def base_with_suffix_def Let_def
     join_name_def name_def parent_def stem_def mkdir_parents_def suffix_to_prefix)

section \<open>The scale filter\<close>

text \<open>Every encode command, hardware or software, hands the filter \<open>vf_chain\<close> to the engine.\<close>

lemma vf_in_command: "sublist [S ''-vf'', S vf_chain] (build_ffmpeg_command i out h)"
  unfolding build_ffmpeg_command_def
  by (simp add: sublist_code sublist_append)

section \<open>A cancellation does not stop the batch\<close>

text \<open>
  Claim C7 against the code. In the run with a cancellation the user interrupts the
  hardware encode of the first file. \<^verbatim>\<open>run_cmd\<close> turns the interrupt into the return
  code 130, \<^verbatim>\<open>convert_one\<close> takes it for a failed hardware attempt and starts the
  software encode, the first file ends as \<open>encoded\<close>, and the loop goes on to the second
  file: five external commands in all. Where the interrupted run is the last attempt,
  the status is \<open>error(130)\<close>, the very status of an engine that exits with code 130.
\<close>

theorem interrupt_continues_batch:
  "fst (main_loop cancel_globals [''out''] cancel_tasks cancel_world) =
     [Inr ([''in'', ''a.avi''], [''out'', ''in'', ''a_480p.mkv''], ''encoded''),
      Inr ([''in'', ''b.avi''], [''out'', ''in'', ''b_480p.mkv''], ''encoded'')]
   \<and> spawned (snd (main_loop cancel_globals [''out''] cancel_tasks cancel_world)) =
     [ffprobe_command [''in'', ''a.avi''],
      build_ffmpeg_command [''in'', ''a.avi''] [''tmp'', ''u0.tmp.mkv''] (Some ''cuda''),
      build_ffmpeg_command [''in'', ''a.avi''] [''tmp'', ''u0.tmp.mkv''] None,
      ffprobe_command [''in'', ''b.avi''],
      build_ffmpeg_command [''in'', ''b.avi''] [''tmp'', ''u1.tmp.mkv''] (Some ''cuda'')]
   \<and> fst (convert_one plain_globals [''in''] [''in'', ''a.avi''] [''out''] interrupted_world) =
     Inr ([''in'', ''a.avi''], [''out'', ''in'', ''a_480p.mkv''], ''error(130)'')
   \<and> fst (convert_one plain_globals [''in''] [''in'', ''a.avi''] [''out''] exit130_world) =
     Inr ([''in'', ''a.avi''], [''out'', ''in'', ''a_480p.mkv''], ''error(130)'')"
  by code_simp


section \<open>Filesystem lemmas\<close>

lemma out_name_not_temp: "base_with_suffix b ''_480p'' @ ''.mkv'' \<noteq> u @ ''.tmp.mkv''"
proof
  assume eq: "base_with_suffix b ''_480p'' @ ''.mkv'' = u @ ''.tmp.mkv''"
  obtain c where c: "base_with_suffix b ''_480p'' = c @ ''_480p''"
    by (cases "suffix ''_480p'' b") (auto simp: base_with_suffix_def suffix_def)
  from eq c have "(c @ ''_'') @ ''480p.mkv'' = u @ ''.tmp.mkv''"
    by simp
  then have "''480p.mkv'' = ''.tmp.mkv''"
    by (subst (asm) append_eq_append_conv) simp_all
  then show False by simp
qed

lemma mkdir_parents_apply:
  "mkdir_parents d m = Inr m' \<Longrightarrow> m' q = (if q \<noteq> [] \<and> prefix q d then Some Dir else m q)"
  by (auto simp: mkdir_parents_def split: if_splits)

lemma mkdir_parents_no_file:
  "mkdir_parents d m = Inr m' \<Longrightarrow> q \<noteq> [] \<Longrightarrow> prefix q d \<Longrightarrow> m q \<noteq> Some File"
  by (auto simp: mkdir_parents_def list_ex_iff split: if_splits)

lemma wf_mkdir_parents:
  assumes "wf_fs m" "mkdir_parents d m = Inr m'"
  shows "wf_fs m'"
  unfolding wf_fs_def
proof (intro allI impI, elim conjE)
  fix p q assume p: "m' p \<noteq> None" and qp: "strict_prefix q p" and q: "q \<noteq> []"
  show "m' q = Some Dir"
  proof (cases "prefix q d")
    case True
    with q assms(2) show ?thesis by (simp add: mkdir_parents_apply)
  next
    case False
    with qp have "\<not> prefix p d"
      by (meson prefix_order.dual_order.trans strict_prefix_def prefix_order.less_imp_le)
    with p assms(2) have "m p \<noteq> None" by (simp add: mkdir_parents_apply)
    with assms(1) qp q have "m q = Some Dir" by (auto simp: wf_fs_def)
    with False assms(2) show ?thesis by (simp add: mkdir_parents_apply)
  qed
qed

lemma mkdir_parents_noop:
  assumes "wf_fs m" "m (d @ [n]) \<noteq> None"
  shows "mkdir_parents d m = Inr m"
proof -
  have dirs: "m q = Some Dir" if "q \<noteq> []" "prefix q d" for q
  proof -
    from that have "strict_prefix q (d @ [n])"
      by (metis prefix_snoc prefix_order.less_le append_self_conv not_Cons_self2 prefix_order.antisym prefix_def prefixI)
    with assms that show ?thesis by (auto simp: wf_fs_def)
  qed
  have "(\<lambda>q. if q \<noteq> [] \<and> prefix q d then Some Dir else m q) = m"
    by (rule ext) (simp add: dirs)
  moreover have "\<not> list_ex (\<lambda>q. q \<noteq> [] \<and> m q = Some File) (prefixes d)"
    by (auto simp: list_ex_iff dirs)
  moreover have "\<not> (d \<noteq> [] \<and> m d = Some File)"
    using dirs[of d] by auto
  ultimately show ?thesis by (simp add: mkdir_parents_def)
qed


lemma touched_refl: "touched t m m"
  by (simp add: touched_def)

lemma butlast_neq: "t \<noteq> [] \<Longrightarrow> butlast t \<noteq> t"
  by (metis append_butlast_last_id append_self_conv not_Cons_self2)

lemma parent_is_dir_same:
  "touched t m m' \<Longrightarrow> parent_is_dir m' t = parent_is_dir m t"
  by (cases "t = []") (auto simp: touched_def parent_is_dir_def butlast_neq)

lemma touched_trans:
  assumes "touched t m m1" "touched t m1 m2"
  shows "touched t m m2"
proof -
  have fr: "\<forall>p. p \<noteq> t \<longrightarrow> m2 p = m p"
    using assms by (simp add: touched_def)
  have pd: "parent_is_dir m1 t = parent_is_dir m t"
    using assms(1) by (rule parent_is_dir_same)
  have "m2 t = m t \<or> (m t \<noteq> Some Dir \<and> (m2 t = None \<or> (m2 t = Some File \<and> parent_is_dir m t)))"
    using assms pd unfolding touched_def by auto
  with fr show ?thesis by (simp add: touched_def)
qed

lemma touched_proc_effect: "touched t m (proc_effect b (Some t) m)"
  by (auto simp: touched_def proc_effect_def)

lemma touched_unlink: "unlink t m = Inr m' \<Longrightarrow> touched t m m' \<and> m' t = None"
  by (auto simp: touched_def unlink_def split: option.splits kind.splits)

lemma touched_unlink_if_exists:
  "unlink_if_exists t m = Inr m' \<Longrightarrow> touched t m m' \<and> m' t = None"
  by (auto simp: unlink_if_exists_def fs_exists_def touched_refl dest: touched_unlink
      split: if_splits)

lemma wf_touched:
  assumes wf: "wf_fs m" and t: "touched t m m'"
  shows "wf_fs m'"
  unfolding wf_fs_def
proof (intro allI impI, elim conjE)
  fix p q assume p: "m' p \<noteq> None" and qp: "strict_prefix q p" and q: "q \<noteq> []"
  have fr: "\<And>x. x \<noteq> t \<Longrightarrow> m' x = m x" using t by (simp add: touched_def)
  have key: "m q = Some Dir"
  proof (cases "p = t")
    case False
    with p fr have "m p \<noteq> None" by simp
    with wf qp q show ?thesis by (auto simp: wf_fs_def)
  next
    case True
    show ?thesis
    proof (cases "m t = None")
      case False
      with wf qp q True show ?thesis by (auto simp: wf_fs_def)
    next
      case n: True
      with p True t have pd: "parent_is_dir m t" by (auto simp: touched_def)
      from qp True have "prefix q (butlast t)"
        by (metis append_butlast_last_id prefix_snoc strict_prefix_def strict_prefixE' butlast.simps(1) prefix_order.less_le)
      moreover from pd this q have bd: "m (butlast t) = Some Dir"
        by (auto simp: parent_is_dir_def)
      ultimately show ?thesis
        using wf q by (cases "q = butlast t") (auto simp: wf_fs_def strict_prefix_def)
    qed
  qed
  show "m' q = Some Dir"
  proof (cases "q = t")
    case False
    with fr key show ?thesis by simp
  next
    case True
    with key t show ?thesis by (auto simp: touched_def)
  qed
qed

lemma pending_touched:
  assumes "pending m out" "touched t m m'" "t \<noteq> out"
  shows "pending m' out"
proof -
  have fr: "\<And>x. x \<noteq> t \<Longrightarrow> m' x = m x" using assms(2) by (simp add: touched_def)
  have wf: "wf_fs m'" using assms by (auto simp: pending_def intro: wf_touched)
  have o: "m' out = None" using assms fr by (simp add: pending_def)
  have "parent_is_dir m' out"
  proof (cases "butlast out = t")
    case False
    with assms(1) fr show ?thesis by (auto simp: pending_def parent_is_dir_def)
  next
    case True
    with assms show ?thesis by (auto simp: pending_def parent_is_dir_def touched_def)
  qed
  with wf o show ?thesis by (simp add: pending_def)
qed

lemma shutil_move_pending:
  assumes "pending m out" "t \<noteq> out" "shutil_move t out m = Inr m'"
  shows "m' = rename t out m \<and> m t \<noteq> None \<and> \<not> prefix t out \<and> \<not> prefix out t"
proof -
  from assms(1) have o: "m out = None" and wf: "wf_fs m" and pd: "parent_is_dir m out"
    by (simp_all add: pending_def)
  from assms(3) obtain k where k: "m t = Some k"
    by (auto simp: shutil_move_def split: option.splits)
  from assms(2,3) k o have r: "m' = rename t out m" and ns: "\<not> strict_prefix t out"
    by (auto simp: shutil_move_def Let_def split: if_splits)
  from ns assms(2) have a: "\<not> prefix t out" by (auto simp: strict_prefix_def)
  have b: "\<not> prefix out t"
  proof
    assume "prefix out t"
    with assms(2) have "strict_prefix out t" by (auto simp: strict_prefix_def)
    moreover from pd have "out \<noteq> []" by (simp add: parent_is_dir_def)
    ultimately have "m out = Some Dir" using wf k by (auto simp: wf_fs_def)
    with o show False by simp
  qed
  from r k a b show ?thesis by simp
qed











lemma run_cmd_eq:
  "run_cmd cmd w =
     (exit_status (engine w (length (spawned w))),
      w\<lparr>spawned := spawned w @ [cmd],
        fs := proc_effect (leaves_file (engine w (length (spawned w)))) (output_of cmd) (fs w)\<rparr>)"
  by (cases "engine w (length (spawned w))")
     (simp_all add: run_cmd_def exit_status_def leaves_file_def proc_effect_def Let_def
        split: option.splits)

section \<open>What each phase of the controller does to the world\<close>

lemma output_of_build [simp]: "output_of (build_ffmpeg_command f t h) = Some t"
  by (simp add: output_of_def build_ffmpeg_command_def)

lemma output_of_remux [simp]: "output_of (remux_command f t) = Some t"
  by (simp add: output_of_def remux_command_def)

lemma same_oracles_refl: "same_oracles w w"
  by (simp add: same_oracles_def)

lemma same_oracles_trans: "same_oracles w w1 \<Longrightarrow> same_oracles w1 w2 \<Longrightarrow> same_oracles w w2"
  by (simp add: same_oracles_def)

lemma run_cmd_struct:
  assumes "run_cmd cmd w = (rc, w')" "output_of cmd = Some t"
  shows "touched t (fs w) (fs w')" "same_oracles w w'" "uuid_calls w' = uuid_calls w"
    "spawned w' = spawned w @ [cmd]" "rc = exit_status (engine w (length (spawned w)))"
  using assms by (auto simp: run_cmd_eq same_oracles_def touched_proc_effect)

lemma encode_attempts_struct:
  assumes "encode_attempts g f t w = (r, w')"
  shows "touched t (fs w) (fs w') \<and> same_oracles w w' \<and> uuid_calls w' = uuid_calls w"
proof (cases "truthy_opt (HWACCEL g)")
  case False
  with assms show ?thesis
    by (auto simp: encode_attempts_def Let_def run_cmd_eq same_oracles_def touched_proc_effect)
next
  case True
  obtain rc w1 where r1: "run_cmd (build_ffmpeg_command f t (HWACCEL g)) w = (rc, w1)"
    by (cases "run_cmd (build_ffmpeg_command f t (HWACCEL g)) w")
  note s1 = run_cmd_struct[OF r1 output_of_build]
  show ?thesis
  proof (cases "rc = 0")
    case z: True
    with assms True r1 s1 show ?thesis by (simp add: encode_attempts_def)
  next
    case nz: False
    show ?thesis
    proof (cases "unlink_if_exists t (fs w1)")
      case (Inl e)
      with assms True r1 nz s1 show ?thesis by (simp add: encode_attempts_def)
    next
      case (Inr m)
      obtain rc2 w2 where r2: "run_cmd (build_ffmpeg_command f t None) (w1\<lparr>fs := m\<rparr>) = (rc2, w2)"
        by (cases "run_cmd (build_ffmpeg_command f t None) (w1\<lparr>fs := m\<rparr>)")
      note s2 = run_cmd_struct[OF r2 output_of_build]
      from assms True r1 nz Inr r2 have w': "w' = w2" by (simp add: encode_attempts_def)
      from touched_unlink_if_exists[OF Inr] have "touched t (fs w1) m" by simp
      with s1(1) s2(1) have "touched t (fs w) (fs w2)"
        by (auto intro: touched_trans)
      moreover from s1(2) s2(2) have "same_oracles w w2" by (simp add: same_oracles_def)
      moreover from s1(3) s2(3) have "uuid_calls w2 = uuid_calls w" by simp
      ultimately show ?thesis using w' by simp
    qed
  qed
qed

lemma encode_attempts_log:
  assumes "encode_attempts g f t w = (r, w')"
  shows "if truthy_opt (HWACCEL g) then
           (if exit_status (engine w (length (spawned w))) = 0
            then spawned w' = spawned w @ [build_ffmpeg_command f t (HWACCEL g)] \<and> r = Inr 0
            else (spawned w' = spawned w @ [build_ffmpeg_command f t (HWACCEL g)]
                    \<and> r = Inl IsADirectoryError)
                 \<or> (spawned w' = spawned w @ [build_ffmpeg_command f t (HWACCEL g),
                                               build_ffmpeg_command f t None]
                    \<and> r = Inr (exit_status (engine w (Suc (length (spawned w)))))))
         else spawned w' = spawned w @ [build_ffmpeg_command f t None]
              \<and> r = Inr (exit_status (engine w (length (spawned w))))"
proof (cases "truthy_opt (HWACCEL g)")
  case False
  with assms show ?thesis
    by (auto simp: encode_attempts_def Let_def run_cmd_eq)
next
  case True
  obtain rc w1 where r1: "run_cmd (build_ffmpeg_command f t (HWACCEL g)) w = (rc, w1)"
    by (cases "run_cmd (build_ffmpeg_command f t (HWACCEL g)) w")
  note s1 = run_cmd_struct[OF r1 output_of_build]
  show ?thesis
  proof (cases "rc = 0")
    case z: True
    with assms True r1 s1 show ?thesis by (simp add: encode_attempts_def)
  next
    case nz: False
    show ?thesis
    proof (cases "unlink_if_exists t (fs w1)")
      case (Inl e)
      then have "e = IsADirectoryError"
        by (auto simp: unlink_if_exists_def unlink_def fs_exists_def
            split: if_splits option.splits kind.splits)
      with Inl assms True r1 nz s1 show ?thesis by (simp add: encode_attempts_def)
    next
      case (Inr m)
      obtain rc2 w2 where r2: "run_cmd (build_ffmpeg_command f t None) (w1\<lparr>fs := m\<rparr>) = (rc2, w2)"
        by (cases "run_cmd (build_ffmpeg_command f t None) (w1\<lparr>fs := m\<rparr>)")
      note s2 = run_cmd_struct[OF r2 output_of_build]
      from assms True r1 nz Inr r2 have w': "w' = w2" "r = Inr rc2" by (simp_all add: encode_attempts_def)
      from s1 s2 nz w' True show ?thesis by (simp add: same_oracles_def)
    qed
  qed
qed

lemma new_temp_name_eq:
  "new_temp_name g w = (temp_path g (uuid4_hex w (uuid_calls w)), w\<lparr>uuid_calls := Suc (uuid_calls w)\<rparr>)"
  by (simp add: new_temp_name_def)

lemma full_encode_struct:
  assumes "full_encode g f out w = (r, w')"
  shows "same_oracles w w' \<and> uuid_calls w' = Suc (uuid_calls w) \<and>
    (\<exists>m1. touched (temp_path g (uuid4_hex w (uuid_calls w))) (fs w) m1 \<and>
      ((\<exists>e. r = Inl e \<and> fs w' = m1)
       \<or> (r = Inr (f, out, ''encoded'')
          \<and> shutil_move (temp_path g (uuid4_hex w (uuid_calls w))) out m1 = Inr (fs w'))
       \<or> (\<exists>rc. rc \<noteq> 0 \<and> r = Inr (f, out, error_status rc) \<and> fs w' = m1
               \<and> m1 (temp_path g (uuid4_hex w (uuid_calls w))) = None)))"
proof -
  let ?t = "temp_path g (uuid4_hex w (uuid_calls w))"
  let ?w1 = "w\<lparr>uuid_calls := Suc (uuid_calls w)\<rparr>"
  obtain r2 w2 where ea: "encode_attempts g f ?t ?w1 = (r2, w2)"
    by (cases "encode_attempts g f ?t ?w1")
  from encode_attempts_struct[OF ea]
  have t2: "touched ?t (fs w) (fs w2)" and so: "same_oracles w w2"
    and uc: "uuid_calls w2 = Suc (uuid_calls w)"
    by (simp_all add: same_oracles_def)
  show ?thesis
  proof (cases r2)
    case (Inl e)
    with assms ea have "r = Inl e" "w' = w2"
      by (simp_all add: full_encode_def new_temp_name_eq)
    with t2 so uc show ?thesis by auto
  next
    case (Inr rc)
    show ?thesis
    proof (cases "rc = 0")
      case True
      show ?thesis
      proof (cases "shutil_move ?t out (fs w2)")
        case (Inl e)
        with assms ea Inr True have "r = Inl e" "w' = w2"
          by (simp_all add: full_encode_def new_temp_name_eq)
        with t2 so uc show ?thesis by auto
      next
        case mv: (Inr m)
        with assms ea Inr True have "r = Inr (f, out, ''encoded'')" "w' = w2\<lparr>fs := m\<rparr>"
          by (simp_all add: full_encode_def new_temp_name_eq)
        with t2 so uc mv show ?thesis by (auto simp: same_oracles_def)
      qed
    next
      case False
      show ?thesis
      proof (cases "unlink_if_exists ?t (fs w2)")
        case (Inl e)
        with assms ea Inr False have "r = Inl e" "w' = w2"
          by (simp_all add: full_encode_def new_temp_name_eq)
        with t2 so uc show ?thesis by auto
      next
        case ul: (Inr m)
        with assms ea Inr False have "r = Inr (f, out, error_status rc)" "w' = w2\<lparr>fs := m\<rparr>"
          by (simp_all add: full_encode_def new_temp_name_eq)
        moreover from touched_unlink_if_exists[OF ul] t2
        have "touched ?t (fs w) m" "m ?t = None" by (auto intro: touched_trans)
        ultimately show ?thesis using so uc False by (auto simp: same_oracles_def)
      qed
    qed
  qed
qed

lemma remux_attempt_struct:
  assumes "remux_attempt g f out w = (r, w')"
  shows "same_oracles w w' \<and> uuid_calls w' = Suc (uuid_calls w) \<and>
    spawned w' = spawned w @ [remux_command f (temp_path g (uuid4_hex w (uuid_calls w)))] \<and>
    (\<exists>m1. touched (temp_path g (uuid4_hex w (uuid_calls w))) (fs w) m1 \<and>
      ((\<exists>e. r = Inl e \<and> fs w' = m1)
       \<or> (r = Inr (Some (f, out, ''remuxed-audio-converted''))
          \<and> exit_status (engine w (length (spawned w))) = 0
          \<and> shutil_move (temp_path g (uuid4_hex w (uuid_calls w))) out m1 = Inr (fs w'))
       \<or> (r = Inr None \<and> exit_status (engine w (length (spawned w))) \<noteq> 0 \<and> fs w' = m1
          \<and> m1 (temp_path g (uuid4_hex w (uuid_calls w))) = None)))"
proof -
  let ?t = "temp_path g (uuid4_hex w (uuid_calls w))"
  let ?w1 = "w\<lparr>uuid_calls := Suc (uuid_calls w)\<rparr>"
  obtain rc w2 where rn: "run_cmd (remux_command f ?t) ?w1 = (rc, w2)"
    by (cases "run_cmd (remux_command f ?t) ?w1")
  from run_cmd_struct[OF rn output_of_remux]
  have t2: "touched ?t (fs w) (fs w2)" and so: "same_oracles w w2"
    and uc: "uuid_calls w2 = Suc (uuid_calls w)"
    and sp: "spawned w2 = spawned w @ [remux_command f ?t]"
    and rc: "rc = exit_status (engine w (length (spawned w)))"
    by (simp_all add: same_oracles_def)
  show ?thesis
  proof (cases "rc = 0")
    case True
    show ?thesis
    proof (cases "shutil_move ?t out (fs w2)")
      case (Inl e)
      with assms rn True have "r = Inl e" "w' = w2"
        by (simp_all add: remux_attempt_def new_temp_name_eq)
      with t2 so uc sp show ?thesis by auto
    next
      case mv: (Inr m)
      with assms rn True have "r = Inr (Some (f, out, ''remuxed-audio-converted''))" "w' = w2\<lparr>fs := m\<rparr>"
        by (simp_all add: remux_attempt_def new_temp_name_eq)
      with t2 so uc sp mv True rc show ?thesis by (auto simp: same_oracles_def)
    qed
  next
    case False
    show ?thesis
    proof (cases "unlink_if_exists ?t (fs w2)")
      case (Inl e)
      with assms rn False have "r = Inl e" "w' = w2"
        by (simp_all add: remux_attempt_def new_temp_name_eq)
      with t2 so uc sp show ?thesis by auto
    next
      case ul: (Inr m)
      with assms rn False have "r = Inr None" "w' = w2\<lparr>fs := m\<rparr>"
        by (simp_all add: remux_attempt_def new_temp_name_eq)
      moreover from touched_unlink_if_exists[OF ul] t2
      have "touched ?t (fs w) m" "m ?t = None" by (auto intro: touched_trans)
      ultimately show ?thesis using so uc sp False rc by (auto simp: same_oracles_def)
    qed
  qed
qed

lemma ffprobe_info_eq:
  "ffprobe_info p w = (ffprobe_result (prober w (length (spawned w))),
      w\<lparr>spawned := spawned w @ [ffprobe_command p]\<rparr>)"
  by (simp add: ffprobe_info_def)

lemma remux_phase_struct:
  assumes "remux_phase g f out w = (r, w')"
  shows "same_oracles w w' \<and>
    (if remux_due w then
       uuid_calls w' = Suc (uuid_calls w) \<and>
       spawned w' = spawned w @ [ffprobe_command f, remux_command f (tmp g w 0)] \<and>
       (\<exists>m1. touched (tmp g w 0) (fs w) m1 \<and>
         ((\<exists>e. r = Inl e \<and> fs w' = m1)
          \<or> (r = Inr (Some (f, out, ''remuxed-audio-converted''))
             \<and> exit_status (engine w (Suc (length (spawned w)))) = 0
             \<and> shutil_move (tmp g w 0) out m1 = Inr (fs w'))
          \<or> (r = Inr None \<and> exit_status (engine w (Suc (length (spawned w)))) \<noteq> 0
             \<and> fs w' = m1 \<and> m1 (tmp g w 0) = None)))
     else
       uuid_calls w' = uuid_calls w \<and> fs w' = fs w \<and>
       spawned w' = spawned w @ [ffprobe_command f] \<and>
       (r = Inr None \<or> (\<exists>e. r = Inl e)))"
proof -
  let ?w1 = "w\<lparr>spawned := spawned w @ [ffprobe_command f]\<rparr>"
  let ?pr = "ffprobe_result (prober w (length (spawned w)))"
  show ?thesis
  proof (cases ?pr)
    case (Inl e)
    with assms show ?thesis
      by (auto simp: remux_phase_def SKIP_IF_ALREADY_480P_def ffprobe_info_eq remux_due_def
          same_oracles_def)
  next
    case (Inr info)
    show ?thesis
    proof (cases "already_satisfies_480p info")
      case (Inl e)
      with Inr assms show ?thesis
        by (auto simp: remux_phase_def SKIP_IF_ALREADY_480P_def ffprobe_info_eq remux_due_def
            same_oracles_def)
    next
      case ok: (Inr b)
      show ?thesis
      proof (cases b)
        case False
        with ok Inr assms show ?thesis
          by (auto simp: remux_phase_def SKIP_IF_ALREADY_480P_def ffprobe_info_eq remux_due_def
              same_oracles_def)
      next
        case True
        with ok Inr assms have ra: "remux_attempt g f out ?w1 = (r, w')"
          by (simp add: remux_phase_def SKIP_IF_ALREADY_480P_def ffprobe_info_eq)
        from True ok Inr have due: "remux_due w" by (simp add: remux_due_def)
        from remux_attempt_struct[OF ra] due show ?thesis
          by (simp add: same_oracles_def tmp_def)
      qed
    qed
  qed
qed

lemma make_output_path_shape:
  assumes "make_output_path f in_root out_root m = Inr (out, m0)"
  shows "\<exists>d b. out = d @ [base_with_suffix b ''_480p'' @ ''.mkv''] \<and> mkdir_parents d m = Inr m0
      \<and> prefix out_root d"
  using assms
  by (auto simp: make_output_path_def out_dir_of_def join_name_def Let_def
      split: sum.splits if_splits)

lemma temp_path_neq_out:
  "make_output_path f in_root out_root m = Inr (out, m0) \<Longrightarrow> temp_path g u \<noteq> out"
  by (auto simp: temp_path_def dest!: make_output_path_shape dest: out_name_not_temp[THEN notE, OF sym])

lemma tmp_neq_out:
  "make_output_path f in_root out_root m = Inr (out, m0) \<Longrightarrow> tmp g w i \<noteq> out"
  by (simp add: tmp_def temp_path_neq_out)

lemma pending_after_mkdir:
  assumes wf: "wf_fs m" and mo: "make_output_path f in_root out_root m = Inr (out, m0)"
    and ab: "m0 out = None"
  shows "pending m0 out"
proof -
  from make_output_path_shape[OF mo] obtain d b where
    out: "out = d @ [base_with_suffix b ''_480p'' @ ''.mkv'']" and mk: "mkdir_parents d m = Inr m0"
    by auto
  from wf mk have "wf_fs m0" by (rule wf_mkdir_parents)
  moreover have "parent_is_dir m0 out"
    using out mkdir_parents_apply[OF mk, of d] by (auto simp: parent_is_dir_def)
  ultimately show ?thesis using ab by (simp add: pending_def)
qed

lemma convert_one_cases:
  assumes co: "convert_one g in_root f out_root w = (r, w')"
  shows "same_oracles w w' \<and>
    ((\<exists>e. make_output_path f in_root out_root (fs w) = Inl e \<and> r = Inl e \<and> w' = w)
     \<or> (\<exists>out m0. make_output_path f in_root out_root (fs w) = Inr (out, m0) \<and>
          ((m0 out \<noteq> None \<and> r = Inr (f, out, ''exists-skip'') \<and> w' = w\<lparr>fs := m0\<rparr>)
           \<or> (m0 out = None \<and>
               ((uuid_calls w' = uuid_calls w \<and> fs w' = m0 \<and> (\<exists>e. r = Inl e))
                \<or> (uuid_calls w' = uuid_calls w + 1 \<and>
                    (\<exists>m1. touched (tmp g w 0) m0 m1 \<and> ending (tmp g w 0) out f m1 r (fs w')))
                \<or> (uuid_calls w' = uuid_calls w + 2 \<and>
                    (\<exists>m1 m2. touched (tmp g w 0) m0 m1 \<and> m1 (tmp g w 0) = None \<and>
                       touched (tmp g w 1) m1 m2 \<and> ending (tmp g w 1) out f m2 r (fs w'))))))))"
proof (cases "make_output_path f in_root out_root (fs w)")
  case (Inl e)
  with co show ?thesis by (auto simp: convert_one_def same_oracles_def)
next
  case (Inr om)
  obtain out m0 where om: "om = (out, m0)" by (cases om)
  let ?w1 = "w\<lparr>fs := m0\<rparr>"
  show ?thesis
  proof (cases "m0 out = None")
    case False
    with co Inr om show ?thesis
      by (auto simp: convert_one_def fs_exists_def OVERWRITE_def same_oracles_def)
  next
    case ab: True
    obtain r1 w2 where rp: "remux_phase g f out ?w1 = (r1, w2)"
      by (cases "remux_phase g f out ?w1")
    note st = remux_phase_struct[OF rp]
    have t0: "tmp g ?w1 0 = tmp g w 0" by (simp add: tmp_def)
    from st have so1: "same_oracles w w2" by (simp add: same_oracles_def)
    have r1cases: "(\<exists>e. r1 = Inl e) \<or> (\<exists>res. r1 = Inr (Some res)) \<or> r1 = Inr None"
    proof (cases r1)
      case (Inr b)
      then show ?thesis by (cases b) (simp_all, metis prod_cases3)
    qed simp
    from r1cases show ?thesis
    proof (elim disjE exE)
      fix e assume e: "r1 = Inl e"
      with co Inr om ab rp have rw: "r = Inl e" "w' = w2"
        by (simp_all add: convert_one_def fs_exists_def OVERWRITE_def)
      show ?thesis
      proof (cases "remux_due ?w1")
        case True
        with st e t0 obtain m1 where "uuid_calls w2 = Suc (uuid_calls w)"
          "touched (tmp g w 0) m0 m1" "fs w2 = m1" by auto
        with rw so1 Inr om ab show ?thesis by (auto simp: ending_def)
      next
        case False
        with st have "uuid_calls w2 = uuid_calls w" "fs w2 = m0" by simp_all
        with rw so1 Inr om ab show ?thesis by auto
      qed
    next
      fix res assume s: "r1 = Inr (Some res)"
      with co Inr om ab rp have rw: "r = Inr res" "w' = w2"
        by (simp_all add: convert_one_def fs_exists_def OVERWRITE_def)
      from st s have due: "remux_due ?w1" by (auto split: if_splits)
      with st s t0 obtain m1 where "uuid_calls w2 = Suc (uuid_calls w)"
        "touched (tmp g w 0) m0 m1" "res = (f, out, ''remuxed-audio-converted'')"
        "shutil_move (tmp g w 0) out m1 = Inr (fs w2)" by auto
      with rw so1 Inr om ab show ?thesis by (auto simp: ending_def)
    next
      assume n: "r1 = Inr None"
      with co Inr om ab rp have fe: "full_encode g f out w2 = (r, w')"
        by (simp add: convert_one_def fs_exists_def OVERWRITE_def)
      note fst = full_encode_struct[OF fe]
      from fst so1 have so: "same_oracles w w'" by (auto intro: same_oracles_trans)
      from so1 have uh: "uuid4_hex w2 = uuid4_hex w" by (simp add: same_oracles_def)
      show ?thesis
      proof (cases "remux_due ?w1")
        case False
        with st have u2: "uuid_calls w2 = uuid_calls w" and f2: "fs w2 = m0" by simp_all
        with uh have tt: "temp_path g (uuid4_hex w2 (uuid_calls w2)) = tmp g w 0"
          by (simp add: tmp_def)
        from fst tt f2 u2 have "uuid_calls w' = uuid_calls w + 1 \<and>
            (\<exists>m1. touched (tmp g w 0) m0 m1 \<and> ending (tmp g w 0) out f m1 r (fs w'))"
          by (auto simp: ending_def)
        with so Inr om ab show ?thesis by auto
      next
        case True
        with st n t0 obtain m1 where u2: "uuid_calls w2 = Suc (uuid_calls w)"
          and t1: "touched (tmp g w 0) m0 m1" and f2: "fs w2 = m1" and g1: "m1 (tmp g w 0) = None"
          by auto
        from uh u2 have tt: "temp_path g (uuid4_hex w2 (uuid_calls w2)) = tmp g w 1"
          by (simp add: tmp_def)
        from fst tt f2 u2 have "uuid_calls w' = uuid_calls w + 2 \<and>
            (\<exists>m2. touched (tmp g w 1) m1 m2 \<and> ending (tmp g w 1) out f m2 r (fs w'))"
          by (auto simp: ending_def)
        with so Inr om ab t1 g1 show ?thesis by auto
      qed
    qed
  qed
qed


lemma error_status_neq [simp]:
  "error_status rc \<noteq> ''encoded''" "error_status rc \<noteq> ''remuxed-audio-converted''"
  "error_status rc \<noteq> ''exists-skip''"
  "''encoded'' \<noteq> error_status rc" "''remuxed-audio-converted'' \<noteq> error_status rc"
  "''exists-skip'' \<noteq> error_status rc"
  by (simp_all add: error_status_def)







section \<open>No temporary artifact is left behind\<close>

lemma wf_cancel_world: "wf_fs (fs cancel_world)"
  by (auto simp: wf_fs_def cancel_world_def strict_prefix_def prefix_Cons split: if_splits)


lemma wf_done_world: "wf_fs (fs done_world)"
  by (auto simp: wf_fs_def done_world_def strict_prefix_def prefix_Cons split: if_splits)




section \<open>Skipping an existing destination\<close>

lemma parent_after_mkdir:
  assumes mo: "make_output_path f in_root out_root m = Inr (out, m0)"
  shows "parent_is_dir m0 out"
proof -
  from make_output_path_shape[OF mo] obtain d b where
    out: "out = d @ [base_with_suffix b ''_480p'' @ ''.mkv'']" and mk: "mkdir_parents d m = Inr m0"
    by auto
  show ?thesis
    using out mkdir_parents_apply[OF mk, of d] by (auto simp: parent_is_dir_def)
qed

lemma out_after_mkdir:
  assumes mo: "make_output_path f in_root out_root m = Inr (out, m0)"
  shows "m0 out = m out"
proof -
  from make_output_path_shape[OF mo] obtain d b where
    out: "out = d @ [base_with_suffix b ''_480p'' @ ''.mkv'']" and mk: "mkdir_parents d m = Inr m0"
    by auto
  have "\<not> prefix (d @ [x]) d" for x :: string
    by (auto simp: prefix_def)
  with out mkdir_parents_apply[OF mk, of out] show ?thesis by simp
qed

lemma mkdir_unchanged:
  assumes wf: "wf_fs m" and mo: "make_output_path f in_root out_root m = Inr (out, m0)"
    and ex: "m out \<noteq> None"
  shows "m0 = m"
proof -
  from make_output_path_shape[OF mo] obtain d b where
    out: "out = d @ [base_with_suffix b ''_480p'' @ ''.mkv'']" and mk: "mkdir_parents d m = Inr m0"
    by auto
  from wf ex out have "mkdir_parents d m = Inr m" by (auto intro: mkdir_parents_noop)
  with mk show ?thesis by simp
qed

lemma convert_one_skip_general:
  assumes mo: "make_output_path f in_root out_root (fs w) = Inr (out, m0)"
    and ex: "fs w out \<noteq> None"
  shows "convert_one g in_root f out_root w = (Inr (f, out, ''exists-skip''), w\<lparr>fs := m0\<rparr>)"
  using mo ex out_after_mkdir[OF mo]
  by (simp add: convert_one_def fs_exists_def OVERWRITE_def)

lemma convert_one_skip:
  assumes wf: "wf_fs (fs w)" and mo: "make_output_path f in_root out_root (fs w) = Inr (out, m0)"
    and ex: "fs w out \<noteq> None"
  shows "convert_one g in_root f out_root w = (Inr (f, out, ''exists-skip''), w)"
  using convert_one_skip_general[OF mo ex] mkdir_unchanged[OF wf mo ex] by simp

lemma ending_parent:
  assumes pe: "pending m out" and ne: "t \<noteq> out" and en: "ending t out f m r m'"
  shows "parent_is_dir m' out"
proof -
  from pe have pd: "parent_is_dir m out" by (simp add: pending_def)
  from en have "shutil_move t out m = Inr m' \<or> m' = m"
    by (auto simp: ending_def)
  then show ?thesis
  proof
    assume mv: "shutil_move t out m = Inr m'"
    from shutil_move_pending[OF pe ne mv]
    have r: "m' = rename t out m" and a: "\<not> prefix t out" by simp_all
    from pd have o: "out \<noteq> []" by (simp add: parent_is_dir_def)
    have pb: "prefix (butlast out) out" by (simp add: prefix_def) (metis append_butlast_last_id o)
    from a pb have nt: "\<not> prefix t (butlast out)" by (meson prefix_order.trans)
    have no: "\<not> prefix out (butlast out)"
      using o by (metis butlast_neq pb prefix_order.antisym)
    from r nt no have "m' (butlast out) = m (butlast out)" by (simp add: rename_def)
    with pd show ?thesis by (simp add: parent_is_dir_def)
  next
    assume "m' = m"
    with pd show ?thesis by simp
  qed
qed

section \<open>The destination directory\<close>

lemma ending_not_skip: "ending t out f m r m' \<Longrightarrow> r \<noteq> Inr (f', out', ''exists-skip'')"
  by (auto simp: ending_def)

lemma convert_one_parent:
  assumes wf: "wf_fs (fs w)"
    and mo: "make_output_path f in_root out_root (fs w) = Inr (out, m0)"
    and co: "convert_one g in_root f out_root w = (r, w')"
  shows "parent_is_dir (fs w') out \<and> (m0 out = None \<longrightarrow> r \<noteq> Inr (f, out, ''exists-skip''))"
proof -
  note pm = parent_after_mkdir[OF mo]
  note ne = tmp_neq_out[OF mo]
  from convert_one_cases[OF co] show ?thesis
  proof (elim conjE disjE exE)
    fix e assume "make_output_path f in_root out_root (fs w) = Inl e"
    with mo show ?thesis by simp
  next
    fix out0 m00 assume "make_output_path f in_root out_root (fs w) = Inr (out0, m00)"
      "m00 out0 \<noteq> None" "w' = w\<lparr>fs := m00\<rparr>"
    with mo pm show ?thesis by auto
  next
    fix out0 m00 e assume "make_output_path f in_root out_root (fs w) = Inr (out0, m00)"
      "fs w' = m00" "r = Inl e"
    with mo pm show ?thesis by simp
  next
    fix out0 m00 m1 assume mo': "make_output_path f in_root out_root (fs w) = Inr (out0, m00)"
      and ab: "m00 out0 = None" and t: "touched (tmp g w 0) m00 m1"
      and en: "ending (tmp g w 0) out0 f m1 r (fs w')"
    from mo mo' have e: "out0 = out" "m00 = m0" by simp_all
    from pending_after_mkdir[OF wf mo' ab] t ne e have pe: "pending m1 out"
      by (auto intro: pending_touched)
    from ending_parent[OF pe ne] en e ending_not_skip[of "tmp g w 0" out f m1 r "fs w'"]
    show ?thesis by simp
  next
    fix out0 m00 m1 m2 assume mo': "make_output_path f in_root out_root (fs w) = Inr (out0, m00)"
      and ab: "m00 out0 = None" and t1: "touched (tmp g w 0) m00 m1"
      and t2: "touched (tmp g w 1) m1 m2"
      and en: "ending (tmp g w 1) out0 f m2 r (fs w')"
    from mo mo' have e: "out0 = out" "m00 = m0" by simp_all
    from pending_after_mkdir[OF wf mo' ab] t1 ne e have "pending m1 out"
      by (auto intro: pending_touched)
    from this t2 ne have pe: "pending m2 out" by (rule pending_touched)
    from ending_parent[OF pe ne] en e ending_not_skip[of "tmp g w 1" out f m2 r "fs w'"]
    show ?thesis by simp
  qed
qed

lemma mop_done:
  "\<exists>m0. make_output_path [''in'', ''a.avi''] [''in''] [''out''] (fs done_world)
     = Inr ([''out'', ''in'', ''a_480p.mkv''], m0)"
  by (simp add: make_output_path_def relative_to_def out_dir_of_def join_name_def name_def
      parent_def mkdir_parents_def done_world_def stem_def base_with_suffix_def suffix_to_prefix
      Let_def)

lemma mop_cancel:
  "\<exists>m0. make_output_path [''in'', ''a.avi''] [''in''] [''out''] (fs cancel_world)
     = Inr ([''out'', ''in'', ''a_480p.mkv''], m0)"
  by (simp add: make_output_path_def relative_to_def out_dir_of_def join_name_def name_def
      parent_def mkdir_parents_def cancel_world_def stem_def base_with_suffix_def suffix_to_prefix
      Let_def)

text \<open>
  Claim C10. Computing the output path leaves the filesystem changed in exactly one way:
  the destination directory and its ancestors are directories afterwards, every other
  path is as before. The directory is there once the path is computed and still there
  when the task ends, whatever its result. In a well-formed filesystem a task that ends
  as \<open>exists-skip\<close> leaves the whole world as it found it: where the destination
  exists, its directory exists already and nothing is created.
\<close>

theorem output_directory_side_effect:
  assumes wf: "wf_fs (fs w)"
    and mo: "make_output_path f in_root out_root (fs w) = Inr (out, m0)"
    and co: "convert_one g in_root f out_root w = (r, w')"
  shows "(\<forall>q. m0 q = (if q \<noteq> [] \<and> prefix q (butlast out) then Some Dir else fs w q))
       \<and> parent_is_dir m0 out \<and> parent_is_dir (fs w') out
       \<and> (r = Inr (f, out, ''exists-skip'') \<longrightarrow> w' = w)"
proof -
  have "w' = w" if sk: "r = Inr (f, out, ''exists-skip'')"
  proof (cases "fs w out = None")
    case True
    with out_after_mkdir[OF mo] convert_one_parent[OF wf mo co] sk show ?thesis by simp
  next
    case False
    from convert_one_skip[OF wf mo False, of g] co show ?thesis by simp
  qed
  moreover from make_output_path_shape[OF mo]
  have "\<forall>q. m0 q = (if q \<noteq> [] \<and> prefix q (butlast out) then Some Dir else fs w q)"
    by (auto simp: mkdir_parents_apply)
  ultimately show ?thesis
    using parent_after_mkdir[OF mo] convert_one_parent[OF wf mo co] by simp
qed

theorem output_directory_side_effect_witness:
  "wf_fs (fs cancel_world)
   \<and> fs cancel_world [''out'', ''in''] = None
   \<and> fs (snd (convert_one cancel_globals [''in''] [''in'', ''a.avi''] [''out''] cancel_world))
        [''out'', ''in''] = Some Dir
   \<and> wf_fs (fs done_world)
   \<and> snd (convert_one cancel_globals [''in''] [''in'', ''a.avi''] [''out''] done_world)
       = done_world"
proof -
  let ?c = "convert_one cancel_globals [''in''] [''in'', ''a.avi''] [''out''] cancel_world"
  let ?d = "convert_one cancel_globals [''in''] [''in'', ''a.avi''] [''out''] done_world"
  from mop_cancel obtain m0 where
    mo: "make_output_path [''in'', ''a.avi''] [''in''] [''out''] (fs cancel_world)
          = Inr ([''out'', ''in'', ''a_480p.mkv''], m0)" ..
  have co: "?c = (fst ?c, snd ?c)" by simp
  from output_directory_side_effect [OF wf_cancel_world mo co]
  have a: "fs (snd ?c) [''out'', ''in''] = Some Dir"
    by (simp add: parent_is_dir_def)
  from mop_done obtain m1 where
    mo1: "make_output_path [''in'', ''a.avi''] [''in''] [''out''] (fs done_world)
          = Inr ([''out'', ''in'', ''a_480p.mkv''], m1)" ..
  have r: "fst ?d = Inr ([''in'', ''a.avi''], [''out'', ''in'', ''a_480p.mkv''], ''exists-skip'')"
    by code_simp
  have cd: "?d = (fst ?d, snd ?d)" by simp
  from output_directory_side_effect [OF wf_done_world mo1 cd] r
  have b: "snd ?d = done_world" by simp
  have "fs cancel_world [''out'', ''in''] = None" by (simp add: cancel_world_def)
  with a b wf_cancel_world wf_done_world show ?thesis by simp
qed

text \<open>
  The first file has been converted already: the task is skipped and the world after it
  is the world before it.
\<close>

theorem skip_leaves_filesystem_counterexample:
  "convert_one cancel_globals [''in''] [''in'', ''a.avi''] [''out''] done_world
   = (Inr ([''in'', ''a.avi''], [''out'', ''in'', ''a_480p.mkv''], ''exists-skip''), done_world)"
proof -
  from mop_done obtain m0 where
    mo: "make_output_path [''in'', ''a.avi''] [''in''] [''out''] (fs done_world)
          = Inr ([''out'', ''in'', ''a_480p.mkv''], m0)" ..
  have ex: "fs done_world [''out'', ''in'', ''a_480p.mkv''] \<noteq> None"
    by (simp add: done_world_def)
  from convert_one_skip[OF wf_done_world mo ex] show ?thesis .
qed


section \<open>Skipped tasks and the batch run twice\<close>









section \<open>The commands a task runs\<close>

lemma unlink_if_exists_error:
  "unlink_if_exists t m = Inl e \<Longrightarrow> e = IsADirectoryError"
  by (auto simp: unlink_if_exists_def unlink_def fs_exists_def
      split: if_splits option.splits kind.splits)

lemma full_encode_log:
  assumes "full_encode g f out w = (r, w')"
  shows "\<exists>E. encode_log g f (temp_path g (uuid4_hex w (uuid_calls w))) E
           \<and> spawned w' = spawned w @ E"
proof -
  let ?t = "temp_path g (uuid4_hex w (uuid_calls w))"
  let ?w1 = "w\<lparr>uuid_calls := Suc (uuid_calls w)\<rparr>"
  obtain r2 w2 where ea: "encode_attempts g f ?t ?w1 = (r2, w2)"
    by (cases "encode_attempts g f ?t ?w1")
  from encode_attempts_log[OF ea]
  have "\<exists>E. encode_log g f ?t E \<and> spawned w2 = spawned w @ E"
    by (auto simp: encode_log_def split: if_splits)
  moreover from assms ea have "spawned w' = spawned w2"
    by (auto simp: full_encode_def new_temp_name_eq split: sum.splits if_splits)
  ultimately show ?thesis by simp
qed

lemma remux_attempt_log:
  assumes "remux_attempt g f out w = (r, w')"
  shows "if exit_status (engine w (length (spawned w))) = 0 then r \<noteq> Inr None
         else r = Inl IsADirectoryError \<or> r = Inr None"
proof -
  let ?t = "temp_path g (uuid4_hex w (uuid_calls w))"
  let ?w1 = "w\<lparr>uuid_calls := Suc (uuid_calls w)\<rparr>"
  obtain rc w2 where rn: "run_cmd (remux_command f ?t) ?w1 = (rc, w2)"
    by (cases "run_cmd (remux_command f ?t) ?w1")
  from run_cmd_struct(5)[OF rn output_of_remux]
  have rc: "rc = exit_status (engine w (length (spawned w)))" by simp
  show ?thesis
  proof (cases "rc = 0")
    case True
    with assms rn rc show ?thesis
      by (auto simp: remux_attempt_def new_temp_name_eq split: sum.splits)
  next
    case False
    with assms rn rc show ?thesis
      by (auto simp: remux_attempt_def new_temp_name_eq split: sum.splits
          dest: unlink_if_exists_error)
  qed
qed

lemma remux_due_fs [simp]: "remux_due (w\<lparr>fs := m\<rparr>) = remux_due w"
  by (simp add: remux_due_def)

lemma remux_phase_log:
  assumes "remux_phase g f out w = (r, w')" "remux_due w"
  shows "if exit_status (engine w (Suc (length (spawned w)))) = 0 then r \<noteq> Inr None
         else r = Inl IsADirectoryError \<or> r = Inr None"
proof -
  let ?w1 = "w\<lparr>spawned := spawned w @ [ffprobe_command f]\<rparr>"
  from assms(2) obtain info where
    "ffprobe_result (prober w (length (spawned w))) = Inr info"
    "already_satisfies_480p info = Inr True"
    by (auto simp: remux_due_def split: sum.splits)
  with assms(1) have "remux_attempt g f out ?w1 = (r, w')"
    by (simp add: remux_phase_def SKIP_IF_ALREADY_480P_def ffprobe_info_eq)
  from remux_attempt_log[OF this] show ?thesis by simp
qed

lemma convert_one_log:
  assumes co: "convert_one g in_root f out_root w = (r, w')"
    and mo: "make_output_path f in_root out_root (fs w) = Inr (out, m0)"
    and ab: "m0 out = None"
  shows "if \<not> remux_due w then
           (spawned w' = spawned w @ [ffprobe_command f] \<and> (\<exists>e. r = Inl e))
           \<or> (\<exists>E. encode_log g f (tmp g w 0) E
                 \<and> spawned w' = spawned w @ ffprobe_command f # E)
         else if exit_status (engine w (Suc (length (spawned w)))) = 0 then
           spawned w' = spawned w @ [ffprobe_command f, remux_command f (tmp g w 0)]
         else
           (spawned w' = spawned w @ [ffprobe_command f, remux_command f (tmp g w 0)]
              \<and> r = Inl IsADirectoryError)
           \<or> (\<exists>E. encode_log g f (tmp g w 1) E
                 \<and> spawned w' = spawned w @ [ffprobe_command f, remux_command f (tmp g w 0)] @ E)"
proof -
  let ?w1 = "w\<lparr>fs := m0\<rparr>"
  obtain r1 w2 where rp: "remux_phase g f out ?w1 = (r1, w2)"
    by (cases "remux_phase g f out ?w1")
  note st = remux_phase_struct[OF rp]
  have t0: "tmp g ?w1 0 = tmp g w 0" by (simp add: tmp_def)
  from st have uh: "uuid4_hex w2 = uuid4_hex w" by (simp add: same_oracles_def)
  have r1cases: "(\<exists>e. r1 = Inl e) \<or> (\<exists>res. r1 = Inr (Some res)) \<or> r1 = Inr None"
  proof (cases r1)
    case (Inr b)
    then show ?thesis by (cases b) (simp_all, metis prod_cases3)
  qed simp
  show ?thesis
  proof (cases "remux_due w")
    case False
    with st have sp: "spawned w2 = spawned w @ [ffprobe_command f]"
      and uc: "uuid_calls w2 = uuid_calls w" and rr: "r1 = Inr None \<or> (\<exists>e. r1 = Inl e)"
      by simp_all
    from rr show ?thesis
    proof
      assume n: "r1 = Inr None"
      with co mo ab rp have fe: "full_encode g f out w2 = (r, w')"
        by (simp add: convert_one_def fs_exists_def OVERWRITE_def)
      from full_encode_log[OF fe] uh uc sp False show ?thesis
        by (auto simp: tmp_def)
    next
      assume "\<exists>e. r1 = Inl e"
      then obtain e where e: "r1 = Inl e" ..
      with co mo ab rp have "r = Inl e" "w' = w2"
        by (simp_all add: convert_one_def fs_exists_def OVERWRITE_def)
      with sp False show ?thesis by simp
    qed
  next
    case True
    with st t0 have sp: "spawned w2 = spawned w @ [ffprobe_command f, remux_command f (tmp g w 0)]"
      and uc: "uuid_calls w2 = Suc (uuid_calls w)"
      by simp_all
    from True have due1: "remux_due ?w1" by simp
    note lg = remux_phase_log[OF rp due1]
    from r1cases show ?thesis
    proof (elim disjE exE)
      fix e assume e: "r1 = Inl e"
      with co mo ab rp have "r = Inl e" "w' = w2"
        by (simp_all add: convert_one_def fs_exists_def OVERWRITE_def)
      with sp True lg e show ?thesis by (auto split: if_splits)
    next
      fix res assume s: "r1 = Inr (Some res)"
      with co mo ab rp have "w' = w2"
        by (simp_all add: convert_one_def fs_exists_def OVERWRITE_def)
      with sp True lg s show ?thesis by (auto split: if_splits)
    next
      assume n: "r1 = Inr None"
      with co mo ab rp have fe: "full_encode g f out w2 = (r, w')"
        by (simp add: convert_one_def fs_exists_def OVERWRITE_def)
      from full_encode_log[OF fe] uh uc sp True lg n show ?thesis
        by (auto simp: tmp_def split: if_splits)
    qed
  qed
qed







section \<open>The temporary paths of the attempts\<close>

text \<open>
  Claim C3. The commands of a task are the probe alone, or the probe and the encode
  phase, or the probe, the remux and possibly the encode phase. The remux writes to the
  path named after the first uuid the task draws; the encode phase writes to the path
  named after the next uuid drawn (the first when there was no remux), and its hardware
  and software attempts both write to that one path. The paths of remux and encode phase
  are \<open>TEMP_DIR / <uuid>.tmp.mkv\<close> and differ exactly when the two uuids differ.
\<close>

theorem temp_paths_of_attempts:
  assumes co: "convert_one g in_root f out_root w = (r, w')"
  shows "(spawned w' = spawned w
          \<or> spawned w' = spawned w @ [ffprobe_command f]
          \<or> (\<exists>E. spawned w' = spawned w @ ffprobe_command f # E
                \<and> (E = [build_ffmpeg_command f (tmp g w 0) (HWACCEL g)]
                   \<or> E = [build_ffmpeg_command f (tmp g w 0) (HWACCEL g),
                          build_ffmpeg_command f (tmp g w 0) None]
                   \<or> E = [build_ffmpeg_command f (tmp g w 0) None]))
          \<or> spawned w' = spawned w @ [ffprobe_command f, remux_command f (tmp g w 0)]
          \<or> (\<exists>E. spawned w' = spawned w @ [ffprobe_command f, remux_command f (tmp g w 0)] @ E
                \<and> (E = [build_ffmpeg_command f (tmp g w 1) (HWACCEL g)]
                   \<or> E = [build_ffmpeg_command f (tmp g w 1) (HWACCEL g),
                          build_ffmpeg_command f (tmp g w 1) None]
                   \<or> E = [build_ffmpeg_command f (tmp g w 1) None])))
       \<and> output_of (remux_command f (tmp g w 0)) = Some (tmp g w 0)
       \<and> output_of (build_ffmpeg_command f (tmp g w 0) (HWACCEL g)) = Some (tmp g w 0)
       \<and> output_of (build_ffmpeg_command f (tmp g w 0) None) = Some (tmp g w 0)
       \<and> output_of (build_ffmpeg_command f (tmp g w 1) (HWACCEL g)) = Some (tmp g w 1)
       \<and> output_of (build_ffmpeg_command f (tmp g w 1) None) = Some (tmp g w 1)
       \<and> tmp g w 0 = TEMP_DIR g @ [uuid4_hex w (uuid_calls w) @ ''.tmp.mkv'']
       \<and> tmp g w 1 = TEMP_DIR g @ [uuid4_hex w (Suc (uuid_calls w)) @ ''.tmp.mkv'']
       \<and> (tmp g w 0 = tmp g w 1) = (uuid4_hex w (uuid_calls w) = uuid4_hex w (Suc (uuid_calls w)))"
proof -
  have shape: "spawned w' = spawned w
          \<or> spawned w' = spawned w @ [ffprobe_command f]
          \<or> (\<exists>E. spawned w' = spawned w @ ffprobe_command f # E
                \<and> (E = [build_ffmpeg_command f (tmp g w 0) (HWACCEL g)]
                   \<or> E = [build_ffmpeg_command f (tmp g w 0) (HWACCEL g),
                          build_ffmpeg_command f (tmp g w 0) None]
                   \<or> E = [build_ffmpeg_command f (tmp g w 0) None]))
          \<or> spawned w' = spawned w @ [ffprobe_command f, remux_command f (tmp g w 0)]
          \<or> (\<exists>E. spawned w' = spawned w @ [ffprobe_command f, remux_command f (tmp g w 0)] @ E
                \<and> (E = [build_ffmpeg_command f (tmp g w 1) (HWACCEL g)]
                   \<or> E = [build_ffmpeg_command f (tmp g w 1) (HWACCEL g),
                          build_ffmpeg_command f (tmp g w 1) None]
                   \<or> E = [build_ffmpeg_command f (tmp g w 1) None]))"
  proof (cases "make_output_path f in_root out_root (fs w)")
    case (Inl e)
    with co show ?thesis by (auto simp: convert_one_def)
  next
    case (Inr om)
    obtain out m0 where om: "om = (out, m0)" by (cases om)
    show ?thesis
    proof (cases "m0 out = None")
      case False
      with co Inr om show ?thesis
        by (auto simp: convert_one_def fs_exists_def OVERWRITE_def)
    next
      case True
      from Inr om have mo: "make_output_path f in_root out_root (fs w) = Inr (out, m0)" by simp
      from convert_one_log[OF co mo True] show ?thesis
        unfolding encode_log_def by (auto split: if_splits)
    qed
  qed
  then show ?thesis by (simp add: tmp_def temp_path_def)
qed

theorem temp_paths_of_attempts_witness:
  "spawned (snd (convert_one cancel_globals [''in''] [''in'', ''a.avi''] [''out''] retry_world))
     = [ffprobe_command [''in'', ''a.avi''],
        remux_command [''in'', ''a.avi''] (tmp cancel_globals retry_world 0),
        build_ffmpeg_command [''in'', ''a.avi''] (tmp cancel_globals retry_world 1)
          (HWACCEL cancel_globals),
        build_ffmpeg_command [''in'', ''a.avi''] (tmp cancel_globals retry_world 1) None]
   \<and> tmp cancel_globals retry_world 0 = [''tmp'', ''u0.tmp.mkv'']
   \<and> tmp cancel_globals retry_world 1 = [''tmp'', ''u1.tmp.mkv'']
   \<and> tmp cancel_globals retry_world 0 \<noteq> tmp cancel_globals retry_world 1"
proof -
  let ?c = "convert_one cancel_globals [''in''] [''in'', ''a.avi''] [''out''] retry_world"
  have co: "?c = (fst ?c, snd ?c)" by simp
  have n: "length (spawned (snd ?c)) = 4" by code_simp
  have s0: "spawned retry_world = []" by (simp add: retry_world_def cancel_world_def)
  have u: "uuid_calls retry_world = 0" "uuid4_hex retry_world 0 = ''u0''"
    "uuid4_hex retry_world (Suc 0) = ''u1''" "TEMP_DIR cancel_globals = [''tmp'']"
    by (simp_all add: retry_world_def cancel_world_def cancel_globals_def)
  note t = temp_paths_of_attempts [OF co]
  from t u have p: "tmp cancel_globals retry_world 0 = [''tmp'', ''u0.tmp.mkv'']"
    "tmp cancel_globals retry_world 1 = [''tmp'', ''u1.tmp.mkv'']"
    "tmp cancel_globals retry_world 0 \<noteq> tmp cancel_globals retry_world 1"
    by simp_all
  from t n s0 have "spawned (snd ?c)
     = [ffprobe_command [''in'', ''a.avi''],
        remux_command [''in'', ''a.avi''] (tmp cancel_globals retry_world 0),
        build_ffmpeg_command [''in'', ''a.avi''] (tmp cancel_globals retry_world 1)
          (HWACCEL cancel_globals),
        build_ffmpeg_command [''in'', ''a.avi''] (tmp cancel_globals retry_world 1) None]"
    by auto
  with p show ?thesis by simp
qed

text \<open>
  Every transcoder run fails: the software attempt writes to the very path the failed
  hardware attempt wrote to.
\<close>

theorem retry_reuses_temp_path_counterexample:
  "exit_status (engine failing_world 1) = 1
   \<and> spawned (snd (convert_one cancel_globals [''in''] [''in'', ''a.avi''] [''out''] failing_world))
       = [ffprobe_command [''in'', ''a.avi''],
          build_ffmpeg_command [''in'', ''a.avi''] [''tmp'', ''u0.tmp.mkv''] (Some ''cuda''),
          build_ffmpeg_command [''in'', ''a.avi''] [''tmp'', ''u0.tmp.mkv''] None]"
  by code_simp

end
